theory Spec2Isabelle
  imports Main "HOL-Library.Word" "HOL-Library.Char_ord" "HOL-Library.List_Lexorder"
    "HOL-Library.AList"
begin

section \<open>Common types\<close>

text \<open>
  Go's \<^verbatim>\<open>[]byte\<close> is a list of 8-bit words (a nil slice and an empty slice are both
  the empty list: the code only ever takes their length and their elements). Go's
  \<^verbatim>\<open>string\<close> is a byte string, compared byte by byte; \<^verbatim>\<open>plugin.EventType\<close> is a
  string. An \<^verbatim>\<open>error\<close> value is represented by its message.
\<close>

type_synonym byte = "8 word"
type_synonym bytes = "byte list"
type_synonym EventType = string
type_synonym error = string

section \<open>Event results (pkg/events/dispatcher.go) and their parsing\<close>

text \<open>
  \<^verbatim>\<open>type EventResult struct { Cancelled bool; Modifications map[string]string; Error string }\<close>.
  Ranging over a nil map and over an empty map is the same, so the map is a HOL map.
\<close>

record EventResult =
  Cancelled :: bool
  Modifications :: "string \<rightharpoonup> string"
  Error :: string

text \<open>
  \<^verbatim>\<open>parseEventResult\<close> of package manager (internal/manager/hostfuncs.go):
  \<^verbatim>\<open>
  result := &events.EventResult{Modifications: make(map[string]string)}
  if len(data) > 0 { result.Cancelled = data[0] == 1 }
  return result
  \<close>
\<close>

definition manager_parseEventResult :: "bytes \<Rightarrow> EventResult" where
  "manager_parseEventResult data =
     (let result = \<lparr>Cancelled = False, Modifications = Map.empty, Error = []\<rparr>
      in if length data > 0 then result\<lparr>Cancelled := (data ! 0 = 1)\<rparr> else result)"

text \<open>
  \<^verbatim>\<open>parseEventResult\<close> of package runtime (internal/runtime/instance.go):
  \<^verbatim>\<open>
  result := &events.EventResult{Modifications: make(map[string]string)}
  if len(data) > 0 && data[0] == 1 { result.Cancelled = true }
  return result
  \<close>
\<close>

definition runtime_parseEventResult :: "bytes \<Rightarrow> EventResult" where
  "runtime_parseEventResult data =
     (let result = \<lparr>Cancelled = False, Modifications = Map.empty, Error = []\<rparr>
      in if length data > 0 \<and> data ! 0 = 1 then result\<lparr>Cancelled := True\<rparr> else result)"

section \<open>The event dispatcher (pkg/events/dispatcher.go)\<close>

text \<open>
  \<^verbatim>\<open>type Handler func(ctx context.Context, data []byte) (*EventResult, error)\<close>.
  A handler is a closure over its plugin: it runs guest code and may change state. The
  model threads a state \<open>'w\<close> (everything the handlers can read and change,
  the context included) through the calls; the dispatcher's own maps are not part of
  it (\<^verbatim>\<open>Dispatch\<close> walks a copy of the list, taken before the first call). A
  non-nil error is \<open>Inl\<close>, and then the code ignores the result; otherwise the
  result pointer is \<open>None\<close> (nil) or \<open>Some\<close>.
\<close>

type_synonym 'w Handler = "'w \<Rightarrow> bytes \<Rightarrow> (error + EventResult option) \<times> 'w"

text \<open>
  \<^verbatim>\<open>plugin.Priority\<close> is Go's \<^verbatim>\<open>int\<close>: 64 bits, two's complement, on the
  platforms the host runs on.
\<close>

type_synonym Priority = "64 word"

record 'w Subscription =
  PluginID :: string
  Priority :: Priority
  Handler :: "'w Handler"
  IgnoreCancelled :: bool

text \<open>
  \<^verbatim>\<open>DispatchResult\<close>. Its \<^verbatim>\<open>Cancelled\<close> and \<^verbatim>\<open>Modifications\<close> fields are named
  \<open>DCancelled\<close> and \<open>DModifications\<close> here (the record \<open>EventResult\<close> has the
  names). \<open>DModifications\<close> distinguishes the nil map (\<open>None\<close>) from an allocated one.
  \<^verbatim>\<open>Duration\<close> is a \<^verbatim>\<open>time.Duration\<close>, an int64 of nanoseconds.
\<close>

record DispatchResult =
  DCancelled :: bool
  DModifications :: "(string \<rightharpoonup> string) option"
  Handlers :: int
  Duration :: "64 word"
  Errors :: "error list"

text \<open>
  The dispatcher's maps. Reading a key that a Go map does not hold gives the zero value:
  \<open>subscriptions_of\<close> and \<open>count_of\<close> are those reads. The mutexes and the
  logger are left out: every operation is modelled as one atomic step.
\<close>

record 'w Dispatcher =
  subscriptions :: "EventType \<rightharpoonup> 'w Subscription list"
  eventCount :: "EventType \<rightharpoonup> 64 word"
  cancelCount :: "EventType \<rightharpoonup> 64 word"
  dispatchTimes :: "EventType \<rightharpoonup> 64 word"

definition NewDispatcher :: "'w Dispatcher" where
  "NewDispatcher = \<lparr>subscriptions = Map.empty, eventCount = Map.empty,
     cancelCount = Map.empty, dispatchTimes = Map.empty\<rparr>"

definition subscriptions_of :: "'w Dispatcher \<Rightarrow> EventType \<Rightarrow> 'w Subscription list" where
  "subscriptions_of d event = (case subscriptions d event of None \<Rightarrow> [] | Some subs \<Rightarrow> subs)"

definition count_of :: "(EventType \<rightharpoonup> 64 word) \<Rightarrow> EventType \<Rightarrow> 64 word" where
  "count_of m event = (case m event of None \<Rightarrow> 0 | Some n \<Rightarrow> n)"

text \<open>
  \<^verbatim>\<open>Subscribe\<close> appends the subscription and sorts the event's list with
  \<^verbatim>\<open>slices.SortFunc\<close> and the comparison \<^verbatim>\<open>int(a.Priority - b.Priority)\<close>: the
  subtraction is Go's, on 64-bit integers, and wraps around.
\<close>

definition cmp_priority :: "'w Subscription \<Rightarrow> 'w Subscription \<Rightarrow> int" where
  "cmp_priority a b = sint (Priority a - Priority b)"

text \<open>
  \<^verbatim>\<open>slices.SortFunc\<close> is Go's standard library (pdqsortCmpFunc in
  slices/zsortanyfunc.go). On a slice of at most 12 elements it runs
  \<^verbatim>\<open>insertionSortCmpFunc\<close>:
  \<^verbatim>\<open>
  for i := a + 1; i < b; i++ {
      for j := i; j > a && (cmp(data[j], data[j-1]) < 0); j-- {
          data[j], data[j-1] = data[j-1], data[j]
      }
  }
  \<close>
  \<open>insertion_inner cmp x left\<close> is the inner loop for the element \<open>x\<close>, where
  \<open>left\<close> holds the elements before it, nearest first: \<open>x\<close> moves left past every
  element it compares below. The documentation of \<^verbatim>\<open>slices.SortFunc\<close> does not
  promise a stable sort, and longer slices take the quicksort path, which this
  development does not model: there \<open>SortFunc\<close> is \<open>None\<close>.
\<close>

fun insertion_inner :: "('a \<Rightarrow> 'a \<Rightarrow> int) \<Rightarrow> 'a \<Rightarrow> 'a list \<Rightarrow> 'a list" where
  "insertion_inner cmp x [] = [x]"
| "insertion_inner cmp x (y # left) =
     (if cmp x y < 0 then y # insertion_inner cmp x left else x # y # left)"

definition insertionSortCmpFunc :: "('a \<Rightarrow> 'a \<Rightarrow> int) \<Rightarrow> 'a list \<Rightarrow> 'a list" where
  "insertionSortCmpFunc cmp data = rev (fold (insertion_inner cmp) data [])"

definition SortFunc :: "('a \<Rightarrow> 'a \<Rightarrow> int) \<Rightarrow> 'a list \<Rightarrow> 'a list option" where
  "SortFunc cmp data =
     (if length data \<le> 12 then Some (insertionSortCmpFunc cmp data) else None)"

definition Subscribe ::
    "'w Dispatcher \<Rightarrow> EventType \<Rightarrow> 'w Subscription \<Rightarrow> 'w Dispatcher option" where
  "Subscribe d event sub =
     (case SortFunc cmp_priority (subscriptions_of d event @ [sub]) of
        None \<Rightarrow> None
      | Some subs \<Rightarrow> Some (d\<lparr>subscriptions := (subscriptions d)(event \<mapsto> subs)\<rparr>))"

text \<open>A sequence of \<^verbatim>\<open>Subscribe\<close> calls for one event, in the order of the list.\<close>

fun Subscribe_all ::
    "'w Dispatcher \<Rightarrow> EventType \<Rightarrow> 'w Subscription list \<Rightarrow> 'w Dispatcher option" where
  "Subscribe_all d event [] = Some d"
| "Subscribe_all d event (sub # subs) =
     (case Subscribe d event sub of None \<Rightarrow> None | Some d' \<Rightarrow> Subscribe_all d' event subs)"

text \<open>
  The state of the loop of \<^verbatim>\<open>Dispatch\<close>: the result being accumulated, the state
  the handlers act on, and the calls made so far. The last component is an observation
  added by the model: the positions, in the snapshot, of the subscriptions whose handler
  was called, in the order of the calls.
\<close>

type_synonym 'w loop_state = "DispatchResult \<times> 'w \<times> nat list"

text \<open>
  What the loop does once a handler has returned without an error:
  \<^verbatim>\<open>
  result.Handlers++
  if handlerResult != nil {
      if handlerResult.Cancelled { result.Cancelled = true }
      for k, v := range handlerResult.Modifications { result.Modifications[k] = v }
  }
  \<close>
  Writing every pair of one map into another is \<open>++\<close>, whatever the order of the
  range. The result's map was allocated before the loop, so it is never nil here.
\<close>

definition merge_result :: "DispatchResult \<Rightarrow> EventResult option \<Rightarrow> DispatchResult" where
  "merge_result result handlerResult =
     (let result = result\<lparr>Handlers := Handlers result + 1\<rparr>
      in case handlerResult of
           None \<Rightarrow> result
         | Some hr \<Rightarrow>
             (let result = (if Cancelled hr then result\<lparr>DCancelled := True\<rparr> else result)
              in result\<lparr>DModifications :=
                   (case DModifications result of
                      None \<Rightarrow> None
                    | Some m \<Rightarrow> Some (m ++ Modifications hr))\<rparr>))"

text \<open>
  One iteration of \<^verbatim>\<open>for _, sub := range subs\<close>, for the subscription at position
  \<open>i\<close> of the snapshot:
  \<^verbatim>\<open>
  if result.Cancelled && sub.IgnoreCancelled { continue }
  handlerResult, err := sub.Handler(ctx, serialized)
  if err != nil { result.Errors = append(result.Errors, err); ...log...; continue }
  ...
  \<close>
\<close>

definition Dispatch_step ::
    "bytes \<Rightarrow> nat \<Rightarrow> 'w Subscription \<Rightarrow> 'w loop_state \<Rightarrow> 'w loop_state" where
  "Dispatch_step serialized i sub st =
     (case st of (result, w, calls) \<Rightarrow>
        if DCancelled result \<and> IgnoreCancelled sub then (result, w, calls)
        else (case Handler sub w serialized of
                (Inl err, w') \<Rightarrow> (result\<lparr>Errors := Errors result @ [err]\<rparr>, w', calls @ [i])
              | (Inr handlerResult, w') \<Rightarrow> (merge_result result handlerResult, w', calls @ [i])))"

fun Dispatch_loop ::
    "bytes \<Rightarrow> nat \<Rightarrow> 'w Subscription list \<Rightarrow> 'w loop_state \<Rightarrow> 'w loop_state" where
  "Dispatch_loop serialized i [] st = st"
| "Dispatch_loop serialized i (sub # subs) st =
     Dispatch_loop serialized (Suc i) subs (Dispatch_step serialized i sub st)"

text \<open>
  The result the loop starts from (\<^verbatim>\<open>&DispatchResult{Modifications: make(...)}\<close>),
  and the zero value \<^verbatim>\<open>&DispatchResult{}\<close>.
\<close>

definition new_result :: DispatchResult where
  "new_result = \<lparr>DCancelled = False, DModifications = Some Map.empty, Handlers = 0,
     Duration = 0, Errors = []\<rparr>"

definition zero_result :: DispatchResult where
  "zero_result = \<lparr>DCancelled = False, DModifications = None, Handlers = 0,
     Duration = 0, Errors = []\<rparr>"

text \<open>
  \<^verbatim>\<open>Dispatch\<close>. The event data is given by its serialisation
  (\<^verbatim>\<open>[]byte(data.String())\<close>), and the clock by \<open>elapsed\<close>, the value of
  \<^verbatim>\<open>time.Since(start)\<close> when the loop is over. The error the function returns is
  always nil and is left out. The result is the \<^verbatim>\<open>DispatchResult\<close>, the handlers'
  state, the calls made, and the dispatcher with its counters updated.
\<close>

definition Dispatch ::
    "'w Dispatcher \<Rightarrow> EventType \<Rightarrow> bytes \<Rightarrow> 64 word \<Rightarrow> 'w
       \<Rightarrow> 'w loop_state \<times> 'w Dispatcher" where
  "Dispatch d event serialized elapsed w =
     (let subs = subscriptions_of d event
      in if length subs = 0
         then ((zero_result, w, []), d)
         else
           (case Dispatch_loop serialized 0 subs (new_result, w, [])
            of (result, w', calls) \<Rightarrow>
              (let result = result\<lparr>Duration := elapsed\<rparr>;
                   d = d\<lparr>eventCount := (eventCount d)(event \<mapsto> count_of (eventCount d) event + 1)\<rparr>;
                   d = (if DCancelled result
                        then d\<lparr>cancelCount :=
                                 (cancelCount d)(event \<mapsto> count_of (cancelCount d) event + 1)\<rparr>
                        else d);
                   d = d\<lparr>dispatchTimes :=
                           (dispatchTimes d)(event \<mapsto>
                              count_of (dispatchTimes d) event + Duration result)\<rparr>
               in ((result, w', calls), d))))"

text \<open>The components of what \<open>Dispatch\<close> returns.\<close>

definition result_of :: "'w loop_state \<times> 'w Dispatcher \<Rightarrow> DispatchResult" where
  "result_of r = fst (fst r)"

definition calls_of :: "'w loop_state \<times> 'w Dispatcher \<Rightarrow> nat list" where
  "calls_of r = snd (snd (fst r))"

definition dispatcher_of :: "'w loop_state \<times> 'w Dispatcher \<Rightarrow> 'w Dispatcher" where
  "dispatcher_of r = snd r"

text \<open>
  The accumulated \<^verbatim>\<open>result.Cancelled\<close> at the moment the subscription at position
  \<open>i\<close> of the snapshot is considered: its value after the loop has gone through the
  \<open>i\<close> subscriptions before it.
\<close>

definition cancelled_so_far ::
    "'w Dispatcher \<Rightarrow> EventType \<Rightarrow> bytes \<Rightarrow> 'w \<Rightarrow> nat \<Rightarrow> bool" where
  "cancelled_so_far d event serialized w i =
     DCancelled (fst (Dispatch_loop serialized 0 (take i (subscriptions_of d event))
                        (new_result, w, [])))"

text \<open>Reading a key of the result's modifications (a nil map holds no key).\<close>

definition modification_of :: "DispatchResult \<Rightarrow> string \<Rightarrow> string option" where
  "modification_of r k = (case DModifications r of None \<Rightarrow> None | Some m \<Rightarrow> m k)"

text \<open>The state in which a dispatch leaves what the handlers act on.\<close>

definition state_of :: "'w loop_state \<times> 'w Dispatcher \<Rightarrow> 'w" where
  "state_of r = fst (snd (fst r))"

subsection \<open>The specification's description of a dispatch\<close>

text \<open>
  The definitions of this subsection are not taken from the code. They follow the words
  of the specification, and are what the loop above is compared with; they do not use
  it. The specification describes a dispatch as a walk over the list in which a
  subscription is skipped if the accumulated result is already cancelled and its
  \<^verbatim>\<open>ignore_cancelled\<close> is true, and is called otherwise; on a handler error the walk
  continues; on success \<^verbatim>\<open>cancelled |= result.cancelled\<close> and the modifications are
  merged, a later handler overwriting an earlier one. (A handler may also return no
  result and no error; that changes nothing.)

  \<open>considered serialized subs w i\<close> is the moment the subscription at position
  \<open>i\<close> is considered: whether the accumulated result is cancelled by then, that is,
  whether a handler called before that position has succeeded with a cancelled result,
  and the state the handlers called before that position have left.
\<close>

fun considered :: "bytes \<Rightarrow> 'w Subscription list \<Rightarrow> 'w \<Rightarrow> nat \<Rightarrow> bool \<times> 'w" where
  "considered serialized subs w 0 = (False, w)"
| "considered serialized subs w (Suc i) =
     (case considered serialized subs w i of (cancelled, wi) \<Rightarrow>
        if cancelled \<and> IgnoreCancelled (subs ! i) then (cancelled, wi)
        else (case Handler (subs ! i) wi serialized of
                (Inr (Some hr), w') \<Rightarrow> (cancelled \<or> Cancelled hr, w')
              | (Inr None, w') \<Rightarrow> (cancelled, w')
              | (Inl err, w') \<Rightarrow> (cancelled, w')))"

text \<open>
  The positions whose handler the specification has called, in order; what the handler
  at a position returns when it is applied, at its moment, to the payload; and the
  modifications it contributes (none when it returns an error or no result).
\<close>

definition invoked :: "bytes \<Rightarrow> 'w Subscription list \<Rightarrow> 'w \<Rightarrow> nat list" where
  "invoked serialized subs w =
     filter (\<lambda>i. \<not> (fst (considered serialized subs w i) \<and> IgnoreCancelled (subs ! i)))
       [0..<length subs]"

definition returned ::
    "bytes \<Rightarrow> 'w Subscription list \<Rightarrow> 'w \<Rightarrow> nat \<Rightarrow> error + EventResult option" where
  "returned serialized subs w i =
     fst (Handler (subs ! i) (snd (considered serialized subs w i)) serialized)"

definition returned_modifications ::
    "bytes \<Rightarrow> 'w Subscription list \<Rightarrow> 'w \<Rightarrow> nat \<Rightarrow> (string \<rightharpoonup> string)" where
  "returned_modifications serialized subs w i =
     (case returned serialized subs w i of
        Inr (Some hr) \<Rightarrow> Modifications hr
      | Inr None \<Rightarrow> Map.empty
      | Inl err \<Rightarrow> Map.empty)"

text \<open>
  The modifications of all the handlers invoked, merged in the order of the invocations:
  a later one replaces an earlier one on the keys they share.
\<close>

definition merged :: "bytes \<Rightarrow> 'w Subscription list \<Rightarrow> 'w \<Rightarrow> (string \<rightharpoonup> string)" where
  "merged serialized subs w =
     foldl (++) Map.empty
       (map (returned_modifications serialized subs w) (invoked serialized subs w))"

subsection \<open>Handlers that record their invocations\<close>

text \<open>
  These definitions are not taken from the code either: they are the means of observing
  it. To observe which handlers a dispatch invokes, every handler of a dispatcher is wrapped
  so that each application of it appends, to a list kept in the state the handlers act
  on, the event it is subscribed to, its position in that event's list, and the payload
  it was given. The wrapped handler otherwise does what the handler does.
\<close>

type_synonym invocation = "EventType \<times> nat \<times> bytes"

definition recording ::
    "EventType \<Rightarrow> nat \<times> 'w Subscription \<Rightarrow> ('w \<times> invocation list) Subscription" where
  "recording ev p =
     (case p of (i, sub) \<Rightarrow>
        \<lparr>PluginID = PluginID sub, Priority = Priority sub,
         Handler = (\<lambda>ws data. case ws of (w, seen) \<Rightarrow>
                      (case Handler sub w data of (r, w') \<Rightarrow> (r, (w', seen @ [(ev, i, data)])))),
         IgnoreCancelled = IgnoreCancelled sub\<rparr>)"

definition recording_all :: "'w Dispatcher \<Rightarrow> ('w \<times> invocation list) Dispatcher" where
  "recording_all d =
     \<lparr>subscriptions = (\<lambda>ev. case subscriptions d ev of
                                None \<Rightarrow> None
                              | Some subs \<Rightarrow> Some (map (recording ev) (enumerate 0 subs))),
      eventCount = eventCount d, cancelCount = cancelCount d,
      dispatchTimes = dispatchTimes d\<rparr>"

text \<open>The invocations recorded by a dispatch that started with none recorded.\<close>

definition recorded ::
    "('w \<times> invocation list) loop_state \<times> ('w \<times> invocation list) Dispatcher
       \<Rightarrow> invocation list" where
  "recorded r = snd (state_of r)"

section \<open>The handlers the manager subscribes (internal/manager/hostfuncs.go)\<close>

text \<open>\<^verbatim>\<open>plugin.State\<close> (pkg/plugin/manifest.go).\<close>

datatype State = StateUnloaded | StateLoading | StateLoaded | StateEnabling | StateEnabled
  | StateDisabling | StateDisabled | StateError

text \<open>
  What the call of the guest's \<^verbatim>\<open>handle_event\<close> export comes to, as seen by the
  \<^verbatim>\<open>select\<close> of the handler: the output bytes, an error of the call, or the
  deadline passing first.
\<close>

datatype guest_outcome = Returned bytes | Failed error | TimedOut

definition bytes_of_string :: "string \<Rightarrow> bytes" where
  "bytes_of_string s = map (\<lambda>c. of_nat (of_char c)) s"

text \<open>
  \<^verbatim>\<open>Manager.createEventHandler\<close>: the closure \<^verbatim>\<open>registerEventHandlers\<close> subscribes
  for each event of a plugin's manifest. \<open>state\<close> reads the plugin's state and
  \<open>guest\<close> runs \<^verbatim>\<open>loaded.Instance.Call("handle_event", envelope)\<close>. The metrics the
  closure records are left out.
  \<^verbatim>\<open>
  if loaded.Info.State != plugin.StateEnabled && loaded.Info.State != plugin.StateLoaded {
      return nil, nil
  }
  envelope := append([]byte(eventType), 0)
  envelope = append(envelope, data...)
  ...
  case <-ctx.Done():      return nil, fmt.Errorf("handler timeout for %s", eventType)
  case result := <-resultCh:
      if result.err != nil { return nil, result.err }
      eventResult := parseEventResult(result.output)
      return eventResult, nil
  \<close>
\<close>

definition createEventHandler ::
    "('w \<Rightarrow> State) \<Rightarrow> ('w \<Rightarrow> bytes \<Rightarrow> guest_outcome \<times> 'w) \<Rightarrow> EventType \<Rightarrow> 'w Handler" where
  "createEventHandler state guest eventType = (\<lambda>w data.
     if state w \<noteq> StateEnabled \<and> state w \<noteq> StateLoaded then (Inr None, w)
     else (let envelope = bytes_of_string eventType @ [0] @ data
           in case guest w envelope of
                (TimedOut, w') \<Rightarrow> (Inl (''handler timeout for '' @ eventType), w')
              | (Failed err, w') \<Rightarrow> (Inl err, w')
              | (Returned output, w') \<Rightarrow> (Inr (Some (manager_parseEventResult output)), w')))"

section \<open>The scenarios of the specification\<close>

text \<open>A handler that returns a given result, and a guest that returns given bytes.\<close>

definition returning :: "EventResult \<Rightarrow> 'w Handler" where
  "returning r = (\<lambda>w data. (Inr (Some r), w))"

definition guest_returning :: "bytes \<Rightarrow> 'w \<Rightarrow> bytes \<Rightarrow> guest_outcome \<times> 'w" where
  "guest_returning output = (\<lambda>w envelope. (Returned output, w))"

text \<open>
  Scenario S4: two handlers on \<^verbatim>\<open>player_chat\<close>, H1 at priority 0 returning
  cancelled, H2 at priority 100 with \<^verbatim>\<open>ignore_cancelled = false\<close>.
\<close>

definition S4_H1 :: "unit Subscription" where
  "S4_H1 = \<lparr>PluginID = ''h1'', Priority = 0,
     Handler = returning \<lparr>Cancelled = True, Modifications = Map.empty, Error = []\<rparr>,
     IgnoreCancelled = False\<rparr>"

definition S4_H2 :: "unit Subscription" where
  "S4_H2 = \<lparr>PluginID = ''h2'', Priority = 100,
     Handler = returning \<lparr>Cancelled = False, Modifications = Map.empty, Error = []\<rparr>,
     IgnoreCancelled = False\<rparr>"

definition S4_dispatcher :: "unit Dispatcher" where
  "S4_dispatcher = NewDispatcher\<lparr>subscriptions := [''player_chat'' \<mapsto> [S4_H1, S4_H2]]\<rparr>"

text \<open>
  Scenario S5: H1 cancels, H2 has \<^verbatim>\<open>ignore_cancelled = true\<close>, H3 has
  \<^verbatim>\<open>ignore_cancelled = false\<close>.
\<close>

definition S5_H2 :: "unit Subscription" where
  "S5_H2 = \<lparr>PluginID = ''h2'', Priority = 100,
     Handler = returning \<lparr>Cancelled = False, Modifications = Map.empty, Error = []\<rparr>,
     IgnoreCancelled = True\<rparr>"

definition S5_H3 :: "unit Subscription" where
  "S5_H3 = \<lparr>PluginID = ''h3'', Priority = 200,
     Handler = returning \<lparr>Cancelled = False, Modifications = Map.empty, Error = []\<rparr>,
     IgnoreCancelled = False\<rparr>"

definition S5_dispatcher :: "unit Dispatcher" where
  "S5_dispatcher =
     NewDispatcher\<lparr>subscriptions := [''player_chat'' \<mapsto> [S4_H1, S5_H2, S5_H3]]\<rparr>"

text \<open>
  Scenario S6: H1 at priority 0 returns \<^verbatim>\<open>{message: "hello"}\<close>, H2 at priority 100
  returns \<^verbatim>\<open>{message: "world"}\<close>. In \<open>S6_dispatcher\<close> the handlers return these
  results themselves. In \<open>S6_guest_dispatcher\<close> they are the manager's handlers,
  over guests whose output is the byte 0 and then the table as JSON.
\<close>

definition S6_H1 :: "unit Subscription" where
  "S6_H1 = \<lparr>PluginID = ''h1'', Priority = 0,
     Handler = returning
       \<lparr>Cancelled = False, Modifications = [''message'' \<mapsto> ''hello''], Error = []\<rparr>,
     IgnoreCancelled = False\<rparr>"

definition S6_H2 :: "unit Subscription" where
  "S6_H2 = \<lparr>PluginID = ''h2'', Priority = 100,
     Handler = returning
       \<lparr>Cancelled = False, Modifications = [''message'' \<mapsto> ''world''], Error = []\<rparr>,
     IgnoreCancelled = False\<rparr>"

definition S6_dispatcher :: "unit Dispatcher" where
  "S6_dispatcher = NewDispatcher\<lparr>subscriptions := [''player_chat'' \<mapsto> [S6_H1, S6_H2]]\<rparr>"

definition S6_guest_H1 :: "unit Subscription" where
  \<open>S6_guest_H1 = \<lparr>PluginID = ''h1'', Priority = 0,
     Handler = createEventHandler (\<lambda>w. StateEnabled)
        (guest_returning (0 # bytes_of_string ''{"message":"hello"}'')) ''player_chat'',
     IgnoreCancelled = False\<rparr>\<close>

definition S6_guest_H2 :: "unit Subscription" where
  \<open>S6_guest_H2 = \<lparr>PluginID = ''h2'', Priority = 100,
     Handler = createEventHandler (\<lambda>w. StateEnabled)
        (guest_returning (0 # bytes_of_string ''{"message":"world"}'')) ''player_chat'',
     IgnoreCancelled = False\<rparr>\<close>

definition S6_guest_dispatcher :: "unit Dispatcher" where
  "S6_guest_dispatcher =
     NewDispatcher\<lparr>subscriptions := [''player_chat'' \<mapsto> [S6_guest_H1, S6_guest_H2]]\<rparr>"

text \<open>
  Two subscriptions whose priorities are 1 and the least int64, and the dispatcher with
  the priority-1 subscription before the other.
\<close>

definition sub_one :: "unit Subscription" where
  "sub_one = \<lparr>PluginID = ''one'', Priority = 1,
     Handler = returning \<lparr>Cancelled = False, Modifications = Map.empty, Error = []\<rparr>,
     IgnoreCancelled = False\<rparr>"

definition sub_min :: "unit Subscription" where
  "sub_min = \<lparr>PluginID = ''min'', Priority = - 9223372036854775808,
     Handler = returning \<lparr>Cancelled = False, Modifications = Map.empty, Error = []\<rparr>,
     IgnoreCancelled = False\<rparr>"

definition one_min_dispatcher :: "unit Dispatcher" where
  "one_min_dispatcher =
     NewDispatcher\<lparr>subscriptions := [''player_chat'' \<mapsto> [sub_one, sub_min]]\<rparr>"

text \<open>
  Six subscriptions: the first returns \<^verbatim>\<open>{a: "1"}\<close>, the second an error, the third
  the nil result, the fourth cancels and returns \<^verbatim>\<open>{b: "2"}\<close>, the fifth has
  \<^verbatim>\<open>ignore_cancelled = true\<close> and would return \<^verbatim>\<open>{a: "9"}\<close>, the sixth returns
  \<^verbatim>\<open>{a: "3", c: "4"}\<close>.
\<close>

definition mixed_dispatcher :: "unit Dispatcher" where
  "mixed_dispatcher = NewDispatcher\<lparr>subscriptions := [''player_chat'' \<mapsto>
     [\<lparr>PluginID = ''h1'', Priority = 0,
        Handler = returning \<lparr>Cancelled = False, Modifications = [''a'' \<mapsto> ''1''], Error = []\<rparr>,
        IgnoreCancelled = False\<rparr>,
      \<lparr>PluginID = ''h2'', Priority = 1,
        Handler = (\<lambda>w data. (Inl ''handler failed'', w)), IgnoreCancelled = False\<rparr>,
      \<lparr>PluginID = ''h3'', Priority = 2,
        Handler = (\<lambda>w data. (Inr None, w)), IgnoreCancelled = False\<rparr>,
      \<lparr>PluginID = ''h4'', Priority = 3,
        Handler = returning \<lparr>Cancelled = True, Modifications = [''b'' \<mapsto> ''2''], Error = []\<rparr>,
        IgnoreCancelled = False\<rparr>,
      \<lparr>PluginID = ''h5'', Priority = 4,
        Handler = returning \<lparr>Cancelled = False, Modifications = [''a'' \<mapsto> ''9''], Error = []\<rparr>,
        IgnoreCancelled = True\<rparr>,
      \<lparr>PluginID = ''h6'', Priority = 5,
        Handler = returning
          \<lparr>Cancelled = False, Modifications = [''a'' \<mapsto> ''3'', ''c'' \<mapsto> ''4''], Error = []\<rparr>,
        IgnoreCancelled = False\<rparr>]]\<rparr>"

text \<open>
  Three handlers that act on a counter: the first adds 1 and cancels, the second has
  \<^verbatim>\<open>ignore_cancelled = true\<close> and would add 10, the third adds 100.
\<close>

definition adding :: "nat \<Rightarrow> bool \<Rightarrow> nat Handler" where
  "adding n cancel =
     (\<lambda>w data. (Inr (Some \<lparr>Cancelled = cancel, Modifications = Map.empty, Error = []\<rparr>), w + n))"

definition counting_dispatcher :: "nat Dispatcher" where
  "counting_dispatcher = NewDispatcher\<lparr>subscriptions := [''player_chat'' \<mapsto>
     [\<lparr>PluginID = ''h1'', Priority = 0, Handler = adding 1 True, IgnoreCancelled = False\<rparr>,
      \<lparr>PluginID = ''h2'', Priority = 100, Handler = adding 10 False, IgnoreCancelled = True\<rparr>,
      \<lparr>PluginID = ''h3'', Priority = 200, Handler = adding 100 False,
        IgnoreCancelled = False\<rparr>]]\<rparr>"

section \<open>Manifests and resource limits (pkg/plugin/manifest.go, pkg/config/config.go)\<close>

text \<open>
  \<^verbatim>\<open>ResourceLimits\<close>: \<^verbatim>\<open>MaxMemoryMB\<close> and \<^verbatim>\<open>MaxExecutionMs\<close> are int64,
  \<^verbatim>\<open>MaxFuel\<close> is uint64.
\<close>

record ResourceLimits =
  MaxMemoryMB :: "64 word"
  MaxExecutionMs :: "64 word"
  MaxFuel :: "64 word"

text \<open>
  \<^verbatim>\<open>Dependency\<close> and \<^verbatim>\<open>Manifest\<close>, with the fields that the loading code reads
  (versions, description, authors and the event list are left out). The dependency's
  \<^verbatim>\<open>ID\<close> field is named \<open>DepID\<close> here.
\<close>

record Dependency =
  DepID :: string
  Optional :: bool

record Manifest =
  ID :: string
  Name :: string
  EntryPoint :: string
  Dependencies :: "Dependency list"
  Limits :: ResourceLimits
  LoadBefore :: "string list"
  LoadAfter :: "string list"

text \<open>
  The fields of \<^verbatim>\<open>Config\<close> that the code below reads; \<open>PoolSize\<close> is
  \<^verbatim>\<open>Performance.PoolSize\<close>.
\<close>

record Config =
  DefaultLimits :: ResourceLimits
  GlobalLimits :: ResourceLimits
  PoolSize :: int

text \<open>\<^verbatim>\<open>plugin.DefaultResourceLimits()\<close> and \<^verbatim>\<open>config.DefaultConfig()\<close>.\<close>

definition DefaultResourceLimits :: ResourceLimits where
  "DefaultResourceLimits = \<lparr>MaxMemoryMB = 64, MaxExecutionMs = 100, MaxFuel = 1000000\<rparr>"

definition DefaultConfig :: Config where
  "DefaultConfig = \<lparr>DefaultLimits = DefaultResourceLimits,
     GlobalLimits = \<lparr>MaxMemoryMB = 256, MaxExecutionMs = 1000, MaxFuel = 10000000\<rparr>,
     PoolSize = 4\<rparr>"

text \<open>Go's \<^verbatim>\<open>min\<close> at type int64 (signed) and at type uint64 (unsigned).\<close>

definition min_int64 :: "64 word \<Rightarrow> 64 word \<Rightarrow> 64 word" where
  "min_int64 a b = (if sint a \<le> sint b then a else b)"

definition min_uint64 :: "64 word \<Rightarrow> 64 word \<Rightarrow> 64 word" where
  "min_uint64 a b = (if uint a \<le> uint b then a else b)"

text \<open>
  \<^verbatim>\<open>Config.GetEffectiveLimits\<close>: a zero field takes the default, then every field is
  capped by the global limit.
\<close>

definition GetEffectiveLimits :: "Config \<Rightarrow> ResourceLimits \<Rightarrow> ResourceLimits" where
  "GetEffectiveLimits c limits =
     (let limits = (if MaxMemoryMB limits = 0
                    then limits\<lparr>MaxMemoryMB := MaxMemoryMB (DefaultLimits c)\<rparr> else limits);
          limits = (if MaxExecutionMs limits = 0
                    then limits\<lparr>MaxExecutionMs := MaxExecutionMs (DefaultLimits c)\<rparr> else limits);
          limits = (if MaxFuel limits = 0
                    then limits\<lparr>MaxFuel := MaxFuel (DefaultLimits c)\<rparr> else limits);
          limits = limits\<lparr>MaxMemoryMB := min_int64 (MaxMemoryMB limits) (MaxMemoryMB (GlobalLimits c))\<rparr>;
          limits = limits\<lparr>MaxExecutionMs :=
                     min_int64 (MaxExecutionMs limits) (MaxExecutionMs (GlobalLimits c))\<rparr>;
          limits = limits\<lparr>MaxFuel := min_uint64 (MaxFuel limits) (MaxFuel (GlobalLimits c))\<rparr>
      in limits)"

section \<open>Ordering the manifests by their dependencies (Manager.sortByDependencies)\<close>

text \<open>
  The errors of \<^verbatim>\<open>sortByDependencies\<close>: "plugin A requires missing dependency B"
  and "circular dependency detected".
\<close>

datatype sort_error = MissingDependency string string | CircularDependency

text \<open>
  \<^verbatim>\<open>manifestMap\<close>: every manifest under its id (a later manifest replaces an earlier
  one of the same id). The map holds pointers; reading an absent key gives the nil
  pointer, which is \<open>None\<close>.
\<close>

definition manifestMap_of :: "Manifest list \<Rightarrow> (string \<rightharpoonup> Manifest)" where
  "manifestMap_of manifests = fold (\<lambda>manifest mm. mm(ID manifest \<mapsto> manifest)) manifests Map.empty"

text \<open>
  \<^verbatim>\<open>inDegree map[string]int\<close> is an association list with distinct keys, because
  the code ranges over it; \<open>degree_of\<close> reads a key (0 when absent).
  \<^verbatim>\<open>dependents map[string][]string\<close> is only read and appended to;
  \<open>dependents_of\<close> reads a key (the nil slice when absent).
\<close>

type_synonym inDegree = "(string \<times> int) list"
type_synonym dependents = "string \<rightharpoonup> string list"

definition degree_of :: "inDegree \<Rightarrow> string \<Rightarrow> int" where
  "degree_of inDeg k = (case map_of inDeg k of None \<Rightarrow> 0 | Some n \<Rightarrow> n)"

definition dependents_of :: "dependents \<Rightarrow> string \<Rightarrow> string list" where
  "dependents_of deps k = (case deps k of None \<Rightarrow> [] | Some ds \<Rightarrow> ds)"

text \<open>
  \<^verbatim>\<open>inDegree[manifest.ID]++\<close> and
  \<^verbatim>\<open>dependents[dep] = append(dependents[dep], manifest.ID)\<close>.
\<close>

definition add_edge :: "string \<Rightarrow> string \<Rightarrow> inDegree \<times> dependents \<Rightarrow> inDegree \<times> dependents" where
  "add_edge dep mid g =
     (case g of (inDeg, deps) \<Rightarrow>
        (AList.update mid (degree_of inDeg mid + 1) inDeg,
         deps(dep \<mapsto> dependents_of deps dep @ [mid])))"

text \<open>
  \<^verbatim>\<open>
  for _, dep := range manifest.Dependencies {
      if !dep.Optional {
          if _, exists := manifestMap[dep.ID]; !exists { return nil, fmt.Errorf(...) }
      }
      if _, exists := manifestMap[dep.ID]; exists {
          inDegree[manifest.ID]++
          dependents[dep.ID] = append(dependents[dep.ID], manifest.ID)
      }
  }
  \<close>
\<close>

fun scan_dependencies ::
    "(string \<rightharpoonup> Manifest) \<Rightarrow> string \<Rightarrow> Dependency list \<Rightarrow> inDegree \<times> dependents
       \<Rightarrow> sort_error + inDegree \<times> dependents" where
  "scan_dependencies mm mid [] g = Inr g"
| "scan_dependencies mm mid (dep # rest) g =
     (if \<not> Optional dep \<and> mm (DepID dep) = None then Inl (MissingDependency mid (DepID dep))
      else scan_dependencies mm mid rest
             (if mm (DepID dep) \<noteq> None then add_edge (DepID dep) mid g else g))"

text \<open>
  \<^verbatim>\<open>
  for _, id := range manifest.LoadAfter {
      if _, exists := manifestMap[id]; exists { ...the same two updates... }
  }
  \<close>
\<close>

fun scan_load_after ::
    "(string \<rightharpoonup> Manifest) \<Rightarrow> string \<Rightarrow> string list \<Rightarrow> inDegree \<times> dependents
       \<Rightarrow> inDegree \<times> dependents" where
  "scan_load_after mm mid [] g = g"
| "scan_load_after mm mid (after # rest) g =
     scan_load_after mm mid rest (if mm after \<noteq> None then add_edge after mid g else g)"

text \<open>
  The loop over the manifests:
  \<^verbatim>\<open>if _, exists := inDegree[manifest.ID]; !exists { inDegree[manifest.ID] = 0 }\<close>
  and then the two loops above.
\<close>

fun scan_manifests ::
    "(string \<rightharpoonup> Manifest) \<Rightarrow> Manifest list \<Rightarrow> inDegree \<times> dependents
       \<Rightarrow> sort_error + inDegree \<times> dependents" where
  "scan_manifests mm [] g = Inr g"
| "scan_manifests mm (manifest # rest) g =
     (case g of (inDeg, deps) \<Rightarrow>
        (let inDeg = (if map_of inDeg (ID manifest) = None
                      then AList.update (ID manifest) 0 inDeg else inDeg)
         in case scan_dependencies mm (ID manifest) (Dependencies manifest) (inDeg, deps) of
              Inl err \<Rightarrow> Inl err
            | Inr g' \<Rightarrow>
                scan_manifests mm rest (scan_load_after mm (ID manifest) (LoadAfter manifest) g')))"

text \<open>
  The inner loop of the second phase, for the dependents of the id just taken from the
  queue. \<^verbatim>\<open>sort.Strings\<close> sorts strings in increasing byte order, which is the
  order of \<open>string\<close> here; the result of sorting does not depend on the algorithm, as
  equal strings cannot be told apart.
  \<^verbatim>\<open>
  for _, dependent := range dependents[id] {
      inDegree[dependent]--
      if inDegree[dependent] == 0 {
          queue = append(queue, dependent)
          sort.Strings(queue)
      }
  }
  \<close>
\<close>

fun release_dependents :: "string list \<Rightarrow> inDegree \<times> string list \<Rightarrow> inDegree \<times> string list" where
  "release_dependents [] st = st"
| "release_dependents (dependent # rest) st =
     (case st of (inDeg, queue) \<Rightarrow>
        (let inDeg = AList.update dependent (degree_of inDeg dependent - 1) inDeg
         in if degree_of inDeg dependent = 0
            then release_dependents rest (inDeg, sort (queue @ [dependent]))
            else release_dependents rest (inDeg, queue)))"

text \<open>
  The measure that shows the second phase ends: twice the sum of the positive
  in-degrees, plus the length of the queue. A step of the inner loop does not increase
  it, and taking an id from the queue decreases it.
\<close>

definition pending :: "inDegree \<Rightarrow> nat" where
  "pending inDeg = sum_list (map (\<lambda>kv. nat (snd kv)) inDeg)"

lemma pending_update:
  "pending (AList.update k v inDeg) + nat (degree_of inDeg k) = pending inDeg + nat v"
  by (induction inDeg) (auto simp: pending_def degree_of_def)

lemma release_dependents_measure:
  "release_dependents ds (inDeg, queue) = (inDeg', queue') \<Longrightarrow>
   2 * pending inDeg' + length queue' \<le> 2 * pending inDeg + length queue"
proof (induction ds arbitrary: inDeg queue)
  case Nil
  then show ?case by simp
next
  case (Cons d ds)
  let ?inDeg1 = "AList.update d (degree_of inDeg d - 1) inDeg"
  have d1: "degree_of ?inDeg1 d = degree_of inDeg d - 1"
    by (simp add: degree_of_def update_conv')
  have p: "pending ?inDeg1 + nat (degree_of inDeg d) = pending inDeg + nat (degree_of inDeg d - 1)"
    by (rule pending_update)
  show ?case
  proof (cases "degree_of inDeg d - 1 = 0")
    case True
    with Cons.prems d1
    have "release_dependents ds (?inDeg1, sort (queue @ [d])) = (inDeg', queue')"
      by (simp add: Let_def)
    from Cons.IH [OF this] p True show ?thesis by simp
  next
    case False
    with Cons.prems d1
    have "release_dependents ds (?inDeg1, queue) = (inDeg', queue')"
      by (simp add: Let_def)
    from Cons.IH [OF this] p show ?thesis by simp
  qed
qed

text \<open>
  The second phase. The result holds pointers read from \<^verbatim>\<open>manifestMap\<close>, so its
  elements are options; the variable \<^verbatim>\<open>id\<close> is \<open>pid\<close>.
  \<^verbatim>\<open>
  for len(queue) > 0 {
      id := queue[0]
      queue = queue[1:]
      result = append(result, manifestMap[id])
      ...the inner loop...
  }
  \<close>
\<close>

function kahn_loop ::
    "(string \<rightharpoonup> Manifest) \<Rightarrow> dependents \<Rightarrow> inDegree \<Rightarrow> string list \<Rightarrow> Manifest option list
       \<Rightarrow> Manifest option list" where
  "kahn_loop mm deps inDeg [] result = result"
| "kahn_loop mm deps inDeg (pid # queue) result =
     (case release_dependents (dependents_of deps pid) (inDeg, queue) of
        (inDeg', queue') \<Rightarrow> kahn_loop mm deps inDeg' queue' (result @ [mm pid]))"
  by pat_completeness auto
termination
proof (relation "measure (\<lambda>(mm, deps, inDeg, queue, result). 2 * pending inDeg + length queue)")
  show "wf (measure (\<lambda>(mm, deps, inDeg, queue, result). 2 * pending inDeg + length queue))"
    by simp
next
  fix mm :: "string \<rightharpoonup> Manifest" and deps :: dependents and inDeg :: inDegree
    and pid :: string and queue :: "string list" and result :: "Manifest option list"
    and inDeg' :: inDegree and queue' :: "string list"
  assume "(inDeg', queue') = release_dependents (dependents_of deps pid) (inDeg, queue)"
  then have "release_dependents (dependents_of deps pid) (inDeg, queue) = (inDeg', queue')"
    by simp
  from release_dependents_measure [OF this]
  show "((mm, deps, inDeg', queue', result @ [mm pid]), (mm, deps, inDeg, pid # queue, result))
      \<in> measure (\<lambda>(mm, deps, inDeg, queue, result). 2 * pending inDeg + length queue)"
    by simp
qed

text \<open>
  \<^verbatim>\<open>sortByDependencies\<close>. The first queue is built by ranging over \<^verbatim>\<open>inDegree\<close> in
  the map's order and is then sorted.
  \<^verbatim>\<open>
  for id, degree := range inDegree { if degree == 0 { queue = append(queue, id) } }
  sort.Strings(queue)
  ...
  if len(result) != len(manifests) { return nil, errors.New("circular dependency detected") }
  return result, nil
  \<close>
\<close>

definition sortByDependencies :: "Manifest list \<Rightarrow> sort_error + Manifest option list" where
  "sortByDependencies manifests =
     (let manifestMap = manifestMap_of manifests
      in case scan_manifests manifestMap manifests ([], Map.empty) of
           Inl err \<Rightarrow> Inl err
         | Inr (inDeg, deps) \<Rightarrow>
             (let queue = sort (map fst (filter (\<lambda>kv. snd kv = 0) inDeg));
                  result = kahn_loop manifestMap deps inDeg queue []
              in if length result \<noteq> length manifests then Inl CircularDependency
                 else Inr result))"



text \<open>Scenario S1: a.one depends on a.two, a.three loads after a.one.\<close>

definition plain_manifest :: "string \<Rightarrow> Dependency list \<Rightarrow> string list \<Rightarrow> Manifest" where
  "plain_manifest i deps after = \<lparr>ID = i, Name = i, EntryPoint = ''plugin.wasm'',
     Dependencies = deps, Limits = \<lparr>MaxMemoryMB = 0, MaxExecutionMs = 0, MaxFuel = 0\<rparr>,
     LoadBefore = [], LoadAfter = after\<rparr>"

definition a_one :: Manifest where
  "a_one = plain_manifest ''a.one'' [\<lparr>DepID = ''a.two'', Optional = False\<rparr>] []"

definition a_two :: Manifest where
  "a_two = plain_manifest ''a.two'' [] []"

definition a_three :: Manifest where
  "a_three = plain_manifest ''a.three'' [] [''a.one'']"


section \<open>The loader's resolver (package manager: Loader.ResolveDependencies)\<close>

text \<open>
  \<^verbatim>\<open>DiscoveredPlugin\<close>; its field \<^verbatim>\<open>Manifest\<close> is named \<open>dp_Manifest\<close> here.
\<close>

record DiscoveredPlugin =
  dp_Manifest :: Manifest
  WASMPath :: string
  DataPath :: string
  Directory :: string

text \<open>
  The variables the closure \<^verbatim>\<open>visit\<close> shares: \<^verbatim>\<open>visited\<close> and \<^verbatim>\<open>visiting\<close>
  (maps to bool, kept as the sets of the keys that are true) and the slice
  \<^verbatim>\<open>sorted\<close>, named \<open>sorted_plugins\<close> here.
\<close>

record resolve_state =
  visited :: "string set"
  visiting :: "string set"
  sorted_plugins :: "DiscoveredPlugin list"

datatype resolve_error = RequiresMissing string string | CircularInvolving string

text \<open>
  \<^verbatim>\<open>visit\<close> calls itself for every dependency and every \<^verbatim>\<open>load_after\<close> entry. The
  first argument bounds the depth of the calls: with too small a bound the result is
  \<open>None\<close>.
  \<^verbatim>\<open>
  if visited[id] { return nil }
  if visiting[id] { return fmt.Errorf("circular dependency detected involving: %s", id) }
  dp, exists := pluginMap[id]
  if !exists { return nil }
  visiting[id] = true
  for _, dep := range dp.Manifest.Dependencies { if err := visit(dep.ID); err != nil { return err } }
  for _, after := range dp.Manifest.LoadAfter { if err := visit(after); err != nil { return err } }
  visiting[id] = false
  visited[id] = true
  sorted = append(sorted, *dp)
  return nil
  \<close>
\<close>

fun visit ::
    "nat \<Rightarrow> (string \<rightharpoonup> DiscoveredPlugin) \<Rightarrow> string \<Rightarrow> resolve_state
       \<Rightarrow> (resolve_error + resolve_state) option"
  and visit_each ::
    "nat \<Rightarrow> (string \<rightharpoonup> DiscoveredPlugin) \<Rightarrow> string list \<Rightarrow> resolve_state
       \<Rightarrow> (resolve_error + resolve_state) option" where
  "visit 0 pluginMap pid st = None"
| "visit (Suc depth) pluginMap pid st =
     (if pid \<in> visited st then Some (Inr st)
      else if pid \<in> visiting st then Some (Inl (CircularInvolving pid))
      else case pluginMap pid of
             None \<Rightarrow> Some (Inr st)
           | Some dp \<Rightarrow>
               (case visit_each depth pluginMap
                       (map DepID (Dependencies (dp_Manifest dp)) @ LoadAfter (dp_Manifest dp))
                       (st\<lparr>visiting := insert pid (visiting st)\<rparr>) of
                  None \<Rightarrow> None
                | Some (Inl err) \<Rightarrow> Some (Inl err)
                | Some (Inr st') \<Rightarrow>
                    Some (Inr (st'\<lparr>visiting := visiting st' - {pid},
                                   visited := insert pid (visited st'),
                                   sorted_plugins := sorted_plugins st' @ [dp]\<rparr>))))"
| "visit_each depth pluginMap [] st = Some (Inr st)"
| "visit_each depth pluginMap (pid # rest) st =
     (case visit depth pluginMap pid st of
        None \<Rightarrow> None
      | Some (Inl err) \<Rightarrow> Some (Inl err)
      | Some (Inr st') \<Rightarrow> visit_each depth pluginMap rest st')"

text \<open>
  The check that comes first:
  \<^verbatim>\<open>
  for _, dp := range plugins {
      for _, dep := range dp.Manifest.Dependencies {
          if _, exists := pluginMap[dep.ID]; !exists && !dep.Optional { return nil, fmt.Errorf(...) }
      }
  }
  \<close>
\<close>

fun first_missing ::
    "(string \<rightharpoonup> DiscoveredPlugin) \<Rightarrow> string \<Rightarrow> Dependency list \<Rightarrow> resolve_error option" where
  "first_missing pluginMap mid [] = None"
| "first_missing pluginMap mid (dep # rest) =
     (if pluginMap (DepID dep) = None \<and> \<not> Optional dep
      then Some (RequiresMissing mid (DepID dep))
      else first_missing pluginMap mid rest)"

fun check_missing ::
    "(string \<rightharpoonup> DiscoveredPlugin) \<Rightarrow> DiscoveredPlugin list \<Rightarrow> resolve_error option" where
  "check_missing pluginMap [] = None"
| "check_missing pluginMap (dp # rest) =
     (case first_missing pluginMap (ID (dp_Manifest dp)) (Dependencies (dp_Manifest dp)) of
        Some err \<Rightarrow> Some err
      | None \<Rightarrow> check_missing pluginMap rest)"

definition ResolveDependencies ::
    "nat \<Rightarrow> DiscoveredPlugin list \<Rightarrow> (resolve_error + DiscoveredPlugin list) option" where
  "ResolveDependencies depth plugins =
     (let pluginMap = fold (\<lambda>dp m. m(ID (dp_Manifest dp) \<mapsto> dp)) plugins Map.empty
      in case check_missing pluginMap plugins of
           Some err \<Rightarrow> Some (Inl err)
         | None \<Rightarrow>
             (case visit_each depth pluginMap (map (\<lambda>dp. ID (dp_Manifest dp)) plugins)
                     \<lparr>visited = {}, visiting = {}, sorted_plugins = []\<rparr> of
                None \<Rightarrow> None
              | Some (Inl err) \<Rightarrow> Some (Inl err)
              | Some (Inr st) \<Rightarrow> Some (Inr (sorted_plugins st))))"

definition discovered :: "Manifest \<Rightarrow> DiscoveredPlugin" where
  "discovered m = \<lparr>dp_Manifest = m, WASMPath = ''plugins/'' @ ID m @ ''/plugin.wasm'',
     DataPath = ''plugin_data/'' @ ID m, Directory = ''plugins/'' @ ID m\<rparr>"

section \<open>Constructing the engine-level instance\<close>

text \<open>
  The manifest handed to the WebAssembly engine (\<^verbatim>\<open>extism.Manifest\<close>, of the extism
  library): the module, and an optional \<^verbatim>\<open>Memory\<close> section whose \<^verbatim>\<open>MaxPages\<close>
  (a uint32) is the cap on the linear memory, in pages of 64 KiB. A nil \<^verbatim>\<open>Memory\<close>
  sets no cap.
\<close>

datatype Wasm = WasmFile string | WasmData bytes

record ManifestMemory =
  MaxPages :: "32 word"

record ExtismManifest =
  Wasm :: "Wasm list"
  Memory :: "ManifestMemory option"

text \<open>
  \<^verbatim>\<open>Manager.loadPlugin\<close> (internal/manager/hostfuncs.go) builds:
  \<^verbatim>\<open>
  limits := m.config.GetEffectiveLimits(manifest.Limits)
  extismManifest := extism.Manifest{
      Wasm:   []extism.Wasm{extism.WasmFile{Path: wasmPath}},
      Memory: &extism.ManifestMemory{MaxPages: uint32(limits.MaxMemoryMB * 16)},
  }
  \<close>
  The product is an int64 product, and the conversion to uint32 keeps its low 32 bits.
\<close>

definition loadPlugin_extismManifest :: "Config \<Rightarrow> Manifest \<Rightarrow> string \<Rightarrow> ExtismManifest" where
  "loadPlugin_extismManifest c manifest wasmPath =
     (let limits = GetEffectiveLimits c (Limits manifest)
      in \<lparr>Wasm = [WasmFile wasmPath],
          Memory = Some \<lparr>MaxPages = ucast (MaxMemoryMB limits * 16)\<rparr>\<rparr>)"

text \<open>
  \<^verbatim>\<open>runtime.NewInstance\<close> (internal/runtime/instance.go) builds:
  \<^verbatim>\<open>
  manifest: extism.Manifest{ Wasm: []extism.Wasm{extism.WasmData{Data: wasmBytes}} },
  ...
  limits := cfg.GetEffectiveLimits(info.Manifest.Limits)
  _ = limits
  \<close>
  and creates the plugin from that manifest: the limits are computed and not used.
\<close>

definition NewInstance_manifest :: "Config \<Rightarrow> Manifest \<Rightarrow> bytes \<Rightarrow> ExtismManifest" where
  "NewInstance_manifest c manifest wasmBytes =
     (let inst_manifest = \<lparr>Wasm = [WasmData wasmBytes], Memory = None\<rparr>;
          limits = GetEffectiveLimits c (Limits manifest)
      in inst_manifest)"

text \<open>A manifest that asks for 64 MB.\<close>

definition manifest_64MB :: Manifest where
  "manifest_64MB = \<lparr>ID = ''a.one'', Name = ''one'', EntryPoint = ''one.wasm'',
     Dependencies = [],
     Limits = \<lparr>MaxMemoryMB = 64, MaxExecutionMs = 0, MaxFuel = 0\<rparr>,
     LoadBefore = [], LoadAfter = []\<rparr>"

section \<open>Storage (package manager: Storage, FileStorage, MemoryStorage)\<close>

text \<open>
  Both backends keep \<^verbatim>\<open>data map[string]map[string][]byte\<close>: a namespace of keys for
  each plugin id. A nil inner map reads as the empty map. The mutexes are left out:
  every operation is one atomic step.
  The field \<^verbatim>\<open>data\<close> is named \<open>mem_data\<close> in the in-memory store and
  \<open>file_data\<close> in the file-backed one.
\<close>

type_synonym namespace = "string \<rightharpoonup> bytes"
type_synonym storage_data = "string \<rightharpoonup> namespace"

record MemoryStorage =
  mem_data :: storage_data

definition NewMemoryStorage :: MemoryStorage where
  "NewMemoryStorage = \<lparr>mem_data = Map.empty\<rparr>"

text \<open>
  \<^verbatim>\<open>Get\<close> returns \<^verbatim>\<open>([]byte, bool, error)\<close>; the error is always nil.
  \<^verbatim>\<open>
  if pluginData, ok := s.data[pluginID]; ok {
      value, exists := pluginData[key]
      return value, exists, nil
  }
  return nil, false, nil
  \<close>
\<close>

definition storage_get :: "storage_data \<Rightarrow> string \<Rightarrow> string \<Rightarrow> bytes \<times> bool \<times> error option" where
  "storage_get d pluginID key =
     (case d pluginID of
        Some pluginData \<Rightarrow>
          (case pluginData key of Some v \<Rightarrow> (v, True, None) | None \<Rightarrow> ([], False, None))
      | None \<Rightarrow> ([], False, None))"

text \<open>
  \<^verbatim>\<open>
  if s.data[pluginID] == nil { s.data[pluginID] = make(map[string][]byte) }
  s.data[pluginID][key] = value
  \<close>
\<close>

definition storage_set :: "storage_data \<Rightarrow> string \<Rightarrow> string \<Rightarrow> bytes \<Rightarrow> storage_data" where
  "storage_set d pluginID key v =
     (let pluginData = (case d pluginID of None \<Rightarrow> Map.empty | Some m \<Rightarrow> m)
      in d(pluginID \<mapsto> pluginData(key \<mapsto> v)))"

text \<open>\<^verbatim>\<open>if pluginData, ok := s.data[pluginID]; ok { delete(pluginData, key) }\<close>\<close>

definition storage_delete :: "storage_data \<Rightarrow> string \<Rightarrow> string \<Rightarrow> storage_data" where
  "storage_delete d pluginID key =
     (case d pluginID of
        Some pluginData \<Rightarrow> d(pluginID \<mapsto> pluginData(key := None))
      | None \<Rightarrow> d)"

definition MemoryStorage_Get ::
    "MemoryStorage \<Rightarrow> string \<Rightarrow> string \<Rightarrow> bytes \<times> bool \<times> error option" where
  "MemoryStorage_Get s pluginID key = storage_get (mem_data s) pluginID key"

definition MemoryStorage_Set ::
    "MemoryStorage \<Rightarrow> string \<Rightarrow> string \<Rightarrow> bytes \<Rightarrow> error option \<times> MemoryStorage" where
  "MemoryStorage_Set s pluginID key v = (None, s\<lparr>mem_data := storage_set (mem_data s) pluginID key v\<rparr>)"

definition MemoryStorage_Delete ::
    "MemoryStorage \<Rightarrow> string \<Rightarrow> string \<Rightarrow> error option \<times> MemoryStorage" where
  "MemoryStorage_Delete s pluginID key = (None, s\<lparr>mem_data := storage_delete (mem_data s) pluginID key\<rparr>)"

definition MemoryStorage_Clear :: "MemoryStorage \<Rightarrow> string \<Rightarrow> error option \<times> MemoryStorage" where
  "MemoryStorage_Clear s pluginID = (None, s\<lparr>mem_data := (mem_data s)(pluginID := None)\<rparr>)"

text \<open>
  The file-backed store keeps the same map and writes a plugin's namespace to
  \<^verbatim>\<open>basePath/pluginID/data.json\<close> after every change. The disk is a map from paths
  to the namespace a file encodes, together with what the operating system answers:
  \<open>mkdirAll disk path\<close> is the error \<^verbatim>\<open>os.MkdirAll(path, 0o755)\<close> returns (\<open>None\<close>
  for nil), and \<open>writeFile disk path\<close> the error of \<^verbatim>\<open>os.WriteFile\<close> on that
  path. A write that returns an error is taken to leave the file as it was.
\<close>

record FileStorage =
  basePath :: string
  file_data :: storage_data

record Disk =
  files :: "string \<rightharpoonup> namespace"
  mkdirAll :: "string \<Rightarrow> error option"
  writeFile :: "string \<Rightarrow> error option"

text \<open>
  \<^verbatim>\<open>filepath.Join\<close> is Go's standard library (path/filepath), here for a system whose
  separator is the slash and whose paths have no volume name. It joins the elements from
  the first one that is not empty with slashes and cleans the result; when every element
  is empty it returns the empty string. \<^verbatim>\<open>filepath.Clean\<close> drops empty elements and
  \<^verbatim>\<open>.\<close> elements, lets a \<^verbatim>\<open>..\<close> element remove the element before it (at the root it
  is dropped, at the start of a relative path it is kept), and turns the empty result
  into \<^verbatim>\<open>.\<close>. \<open>elements cur path\<close> splits a path at its slashes; \<open>clean_elements\<close>
  walks the elements with the ones kept so far, last first.
\<close>

fun elements :: "string \<Rightarrow> string \<Rightarrow> string list" where
  "elements cur [] = [cur]"
| "elements cur (c # cs) =
     (if c = CHR ''/'' then cur # elements [] cs else elements (cur @ [c]) cs)"

fun clean_elements :: "bool \<Rightarrow> string list \<Rightarrow> string list \<Rightarrow> string list" where
  "clean_elements rooted out [] = rev out"
| "clean_elements rooted out (e # es) =
     (if e = [] \<or> e = ''.'' then clean_elements rooted out es
      else if e = ''..'' then
        (case out of
           [] \<Rightarrow> clean_elements rooted (if rooted then [] else [''..'']) es
         | el # kept \<Rightarrow>
             if el = ''..'' then clean_elements rooted (''..'' # out) es
             else clean_elements rooted kept es)
      else clean_elements rooted (e # out) es)"

fun join_elements :: "string list \<Rightarrow> string" where
  "join_elements [] = []"
| "join_elements [e] = e"
| "join_elements (e # es) = e @ ''/'' @ join_elements es"

definition Clean :: "string \<Rightarrow> string" where
  "Clean path =
     (if path = [] then ''.''
      else (let rooted = (hd path = CHR ''/'');
                out = join_elements (clean_elements rooted [] (elements [] path))
            in if rooted then ''/'' @ out else if out = [] then ''.'' else out))"

definition Join :: "string \<Rightarrow> string \<Rightarrow> string" where
  "Join a b = (if a \<noteq> [] then Clean (a @ ''/'' @ b) else if b \<noteq> [] then Clean b else [])"

text \<open>
  \<^verbatim>\<open>
  pluginPath := filepath.Join(s.basePath, pluginID)
  if err := os.MkdirAll(pluginPath, 0o755); err != nil { return err }
  data, err := json.Marshal(s.data[pluginID])
  if err != nil { return err }
  return os.WriteFile(filepath.Join(pluginPath, "data.json"), data, 0o644)
  \<close>
  \<^verbatim>\<open>json.Marshal\<close> returns no error on a map from strings to byte slices.
\<close>

definition persist :: "FileStorage \<Rightarrow> Disk \<Rightarrow> string \<Rightarrow> error option \<times> Disk" where
  "persist s disk pluginID =
     (let pluginPath = Join (basePath s) pluginID
      in case mkdirAll disk pluginPath of
           Some err \<Rightarrow> (Some err, disk)
         | None \<Rightarrow>
             (let dataPath = Join pluginPath ''data.json''
              in case writeFile disk dataPath of
                   Some err \<Rightarrow> (Some err, disk)
                 | None \<Rightarrow>
                     (None, disk\<lparr>files := (files disk)(dataPath \<mapsto>
                        (case file_data s pluginID of None \<Rightarrow> Map.empty | Some m \<Rightarrow> m))\<rparr>)))"

definition FileStorage_Get ::
    "FileStorage \<Rightarrow> string \<Rightarrow> string \<Rightarrow> bytes \<times> bool \<times> error option" where
  "FileStorage_Get s pluginID key = storage_get (file_data s) pluginID key"

definition FileStorage_Set ::
    "FileStorage \<Rightarrow> Disk \<Rightarrow> string \<Rightarrow> string \<Rightarrow> bytes
       \<Rightarrow> error option \<times> FileStorage \<times> Disk" where
  "FileStorage_Set s disk pluginID key v =
     (let s = s\<lparr>file_data := storage_set (file_data s) pluginID key v\<rparr>
      in case persist s disk pluginID of (err, disk) \<Rightarrow> (err, s, disk))"

text \<open>
  \<^verbatim>\<open>
  if pluginData, ok := s.data[pluginID]; ok {
      delete(pluginData, key)
      return s.persist(pluginID)
  }
  return nil
  \<close>
\<close>

definition FileStorage_Delete ::
    "FileStorage \<Rightarrow> Disk \<Rightarrow> string \<Rightarrow> string \<Rightarrow> error option \<times> FileStorage \<times> Disk" where
  "FileStorage_Delete s disk pluginID key =
     (case file_data s pluginID of
        Some pluginData \<Rightarrow>
          (let s = s\<lparr>file_data := storage_delete (file_data s) pluginID key\<rparr>
           in case persist s disk pluginID of (err, disk) \<Rightarrow> (err, s, disk))
      | None \<Rightarrow> (None, s, disk))"

text \<open>The store and the disk an operation leaves behind.\<close>

definition memory_after :: "error option \<times> MemoryStorage \<Rightarrow> MemoryStorage" where
  "memory_after r = snd r"

definition file_after :: "error option \<times> FileStorage \<times> Disk \<Rightarrow> FileStorage" where
  "file_after r = fst (snd r)"

definition disk_after :: "error option \<times> FileStorage \<times> Disk \<Rightarrow> Disk" where
  "disk_after r = snd (snd r)"

section \<open>The instance pool (package runtime: Pool)\<close>

text \<open>
  \<^verbatim>\<open>instances\<close> is a buffered channel of capacity \<^verbatim>\<open>size\<close>: the model keeps its
  buffer, oldest first. The field \<^verbatim>\<open>size\<close> is named \<open>pool_size\<close>.
  \<open>destroyed\<close> is an observation added by the model: the
  instances the pool has closed (\<^verbatim>\<open>inst.Close()\<close>), in order. Every operation is
  modelled as one atomic step of a single goroutine; the channel is closed exactly when
  \<^verbatim>\<open>closed\<close> is set.
\<close>

record 'i Pool =
  instances :: "'i list"
  pool_size :: int
  created :: int
  closed :: bool
  destroyed :: "'i list"

datatype pool_error = ErrPoolExhausted | ErrPoolClosed | ErrContext | ErrCreate error
  | PanicMakeChan

text \<open>
  How an operation ends: with an instance, with an error, with nothing to return, or
  not at all (the goroutine stays blocked in its \<^verbatim>\<open>select\<close>).
\<close>

datatype 'i outcome = Acquired 'i | Err pool_error | Done | Blocked

definition Size :: "'i Pool \<Rightarrow> int" where
  "Size p = pool_size p"

definition Available :: "'i Pool \<Rightarrow> int" where
  "Available p = int (length (instances p))"

text \<open>
  \<^verbatim>\<open>
  if p.closed { return nil }
  p.closed = true
  close(p.instances)
  for inst := range p.instances { inst.Close() }
  \<close>
\<close>

definition Close :: "'i Pool \<Rightarrow> 'i outcome \<times> 'i Pool" where
  "Close p =
     (if closed p then (Done, p)
      else (Done, p\<lparr>closed := True, instances := [], destroyed := destroyed p @ instances p\<rparr>))"

text \<open>
  \<^verbatim>\<open>Release\<close>:
  \<^verbatim>\<open>
  if p.closed { inst.Close(); return }
  select {
  case p.instances <- inst:
  default:
      inst.Close()
  }
  \<close>
  The send is taken when the buffer has room. (With no room it would need a receiver
  waiting in another goroutine, which this model does not have.)
\<close>

definition Release :: "'i Pool \<Rightarrow> 'i \<Rightarrow> 'i outcome \<times> 'i Pool" where
  "Release p inst =
     (if closed p then (Done, p\<lparr>destroyed := destroyed p @ [inst]\<rparr>)
      else if int (length (instances p)) < pool_size p
           then (Done, p\<lparr>instances := instances p @ [inst]\<rparr>)
           else (Done, p\<lparr>destroyed := destroyed p @ [inst]\<rparr>))"

text \<open>
  \<^verbatim>\<open>Acquire\<close>: a \<^verbatim>\<open>select\<close> over the channel, \<^verbatim>\<open>ctx.Done()\<close> and a default.
  \<open>ctx_done\<close> says whether the context is done; when an instance is buffered and
  the context is done, Go picks one of the two ready cases, and \<open>pick_ctx\<close> is that
  choice.
\<close>

definition Acquire :: "'i Pool \<Rightarrow> bool \<Rightarrow> bool \<Rightarrow> 'i outcome \<times> 'i Pool" where
  "Acquire p ctx_done pick_ctx =
     (if closed p then (Err ErrPoolClosed, p)
      else (case instances p of
              inst # rest \<Rightarrow>
                (if ctx_done \<and> pick_ctx then (Err ErrContext, p)
                 else (Acquired inst, p\<lparr>instances := rest\<rparr>))
            | [] \<Rightarrow> (if ctx_done then (Err ErrContext, p) else (Err ErrPoolExhausted, p))))"

text \<open>\<^verbatim>\<open>AcquireWait\<close>: the same \<^verbatim>\<open>select\<close> without the default.\<close>

definition AcquireWait :: "'i Pool \<Rightarrow> bool \<Rightarrow> bool \<Rightarrow> 'i outcome \<times> 'i Pool" where
  "AcquireWait p ctx_done pick_ctx =
     (if closed p then (Err ErrPoolClosed, p)
      else (case instances p of
              inst # rest \<Rightarrow>
                (if ctx_done \<and> pick_ctx then (Err ErrContext, p)
                 else (Acquired inst, p\<lparr>instances := rest\<rparr>))
            | [] \<Rightarrow> (if ctx_done then (Err ErrContext, p) else (Blocked, p))))"

text \<open>
  \<^verbatim>\<open>NewPool\<close>. \<open>create i\<close> is what the \<open>i\<close>-th call of \<^verbatim>\<open>createInstance\<close>
  returns. \<^verbatim>\<open>make(chan *Instance, size)\<close> panics on a negative size.
  \<^verbatim>\<open>
  if size <= 0 { size = cfg.Performance.PoolSize }
  pool := &Pool{..., instances: make(chan *Instance, size), size: size}
  for i := 0; i < size; i++ {
      inst, err := pool.createInstance()
      if err != nil { pool.Close(); return nil, err }
      pool.instances <- inst
      pool.created++
  }
  return pool, nil
  \<close>
\<close>

fun NewPool_fill :: "(nat \<Rightarrow> error + 'i) \<Rightarrow> nat \<Rightarrow> nat \<Rightarrow> 'i Pool \<Rightarrow> pool_error + 'i Pool" where
  "NewPool_fill create i 0 pool = Inr pool"
| "NewPool_fill create i (Suc n) pool =
     (case create i of
        Inl err \<Rightarrow> Inl (ErrCreate err)
      | Inr inst \<Rightarrow>
          NewPool_fill create (Suc i) n
            (pool\<lparr>instances := instances pool @ [inst], created := created pool + 1\<rparr>))"

definition NewPool :: "Config \<Rightarrow> (nat \<Rightarrow> error + 'i) \<Rightarrow> int \<Rightarrow> pool_error + 'i Pool" where
  "NewPool cfg create size0 =
     (let n = (if size0 \<le> 0 then PoolSize cfg else size0)
      in if n < 0 then Inl PanicMakeChan
         else NewPool_fill create 0 (nat n)
                \<lparr>instances = [], pool_size = n, created = 0, closed = False, destroyed = []\<rparr>)"

text \<open>The operations on a pool, and a sequence of them run one after the other.\<close>

datatype 'i pool_op = OpAcquire bool bool | OpAcquireWait bool bool | OpRelease 'i | OpClose

fun pool_step :: "'i Pool \<Rightarrow> 'i pool_op \<Rightarrow> 'i outcome \<times> 'i Pool" where
  "pool_step p (OpAcquire ctx_done pick_ctx) = Acquire p ctx_done pick_ctx"
| "pool_step p (OpAcquireWait ctx_done pick_ctx) = AcquireWait p ctx_done pick_ctx"
| "pool_step p (OpRelease inst) = Release p inst"
| "pool_step p OpClose = Close p"

fun pool_run :: "'i Pool \<Rightarrow> 'i pool_op list \<Rightarrow> 'i Pool" where
  "pool_run p [] = p"
| "pool_run p (op # ops) = pool_run (snd (pool_step p op)) ops"

text \<open>A pool of two instances, numbered as they are created.\<close>

definition two_instances :: "nat \<Rightarrow> error + nat" where
  "two_instances i = Inr i"

definition pool2 :: "nat Pool" where
  "pool2 = \<lparr>instances = [0, 1], pool_size = 2, created = 2, closed = False, destroyed = []\<rparr>"

section \<open>Parsing the guest's output\<close>

lemma manager_parse_Cancelled:
  "Cancelled (manager_parseEventResult data) = (data \<noteq> [] \<and> hd data = 1)"
  by (cases data) (simp_all add: manager_parseEventResult_def Let_def)

lemma runtime_parse_Cancelled:
  "Cancelled (runtime_parseEventResult data) = (data \<noteq> [] \<and> hd data = 1)"
  by (cases data) (simp_all add: runtime_parseEventResult_def Let_def)

lemma manager_parse_Modifications:
  "Modifications (manager_parseEventResult data) = Map.empty"
  by (simp add: manager_parseEventResult_def Let_def)

lemma runtime_parse_Modifications:
  "Modifications (runtime_parseEventResult data) = Map.empty"
  by (simp add: runtime_parseEventResult_def Let_def)

text \<open>
  Claim C8. Both parsers are total functions of the output bytes (there is no error
  result to return), and the parsed result is cancelled exactly when the output is
  non-empty and its first byte is 1. The empty output and an output starting with 2
  are not cancelled.
\<close>

theorem parseEventResult_cancelled_iff:
  "Cancelled (manager_parseEventResult data) = (data \<noteq> [] \<and> hd data = 1)
   \<and> Cancelled (runtime_parseEventResult data) = (data \<noteq> [] \<and> hd data = 1)
   \<and> Cancelled (manager_parseEventResult []) = False
   \<and> Cancelled (runtime_parseEventResult []) = False
   \<and> Cancelled (manager_parseEventResult (2 # rest)) = False
   \<and> Cancelled (runtime_parseEventResult (2 # rest)) = False"
  by (simp add: manager_parse_Cancelled runtime_parse_Cancelled)

theorem parseEventResult_cancelled_iff_witness:
  "Cancelled (manager_parseEventResult [1, 7]) = True
   \<and> Cancelled (runtime_parseEventResult [1, 7]) = True
   \<and> Cancelled (manager_parseEventResult [0, 1]) = False
   \<and> Cancelled (runtime_parseEventResult [0, 1]) = False"
  using parseEventResult_cancelled_iff [of "[1, 7]"] parseEventResult_cancelled_iff [of "[0, 1]"]
  by simp

section \<open>Which handlers a dispatch calls\<close>

lemma Dispatch_loop_snoc:
  "Dispatch_loop s k (subs @ [sub]) st =
     Dispatch_step s (k + length subs) sub (Dispatch_loop s k subs st)"
  by (induction subs arbitrary: k st) simp_all

lemma calls_Dispatch_step:
  "snd (snd (Dispatch_step s i sub st)) =
     snd (snd st) @ (if DCancelled (fst st) \<and> IgnoreCancelled sub then [] else [i])"
  by (cases st) (auto simp: Dispatch_step_def split: prod.splits sum.splits)

lemma calls_Dispatch_loop:
  "snd (snd (Dispatch_loop s 0 subs st)) =
     snd (snd st) @
     filter (\<lambda>i. \<not> (DCancelled (fst (Dispatch_loop s 0 (take i subs) st))
                      \<and> IgnoreCancelled (subs ! i))) [0..<length subs]"
proof (induction subs rule: rev_induct)
  case Nil
  show ?case by simp
next
  case (snoc sub subs)
  let ?P = "\<lambda>xs i. \<not> (DCancelled (fst (Dispatch_loop s 0 (take i xs) st))
                      \<and> IgnoreCancelled (xs ! i))"
  have same: "filter (?P (subs @ [sub])) [0..<length subs] = filter (?P subs) [0..<length subs]"
    by (rule filter_cong) (simp_all add: nth_append)
  have last: "?P (subs @ [sub]) (length subs) =
      (\<not> (DCancelled (fst (Dispatch_loop s 0 subs st)) \<and> IgnoreCancelled sub))"
    by simp
  have "filter (?P (subs @ [sub])) [0..<length (subs @ [sub])] =
      filter (?P subs) [0..<length subs] @
      (if DCancelled (fst (Dispatch_loop s 0 subs st)) \<and> IgnoreCancelled sub then []
       else [length subs])"
    using same last by (simp del: de_Morgan_conj not_imp)
  then show ?case
    by (simp only: Dispatch_loop_snoc calls_Dispatch_step snoc.IH append_assoc add_0)
qed

lemma Dispatch_nonempty:
  assumes "subscriptions_of d event \<noteq> []"
  shows "result_of (Dispatch d event s el w) =
           (fst (Dispatch_loop s 0 (subscriptions_of d event) (new_result, w, [])))\<lparr>Duration := el\<rparr>"
    and "calls_of (Dispatch d event s el w) =
           snd (snd (Dispatch_loop s 0 (subscriptions_of d event) (new_result, w, [])))"
  using assms by (simp_all add: Dispatch_def result_of_def calls_of_def Let_def split: prod.splits)

subsection \<open>The loop and the moment a subscription is considered\<close>

lemma considered_append:
  "i \<le> length xs \<Longrightarrow> considered s (xs @ ys) w i = considered s xs w i"
proof (induction i)
  case 0
  show ?case by simp
next
  case (Suc i)
  then have nth: "(xs @ ys) ! i = xs ! i" and IH: "considered s (xs @ ys) w i = considered s xs w i"
    by (simp_all add: nth_append)
  show ?case by (simp only: considered.simps IH nth)
qed

lemma considered_take:
  "i \<le> length subs \<Longrightarrow> considered s (take i subs) w i = considered s subs w i"
  using considered_append [of i "take i subs" s "drop i subs" w] by simp

lemma DCancelled_merge_result:
  "DCancelled (merge_result r hr) =
     (DCancelled r \<or> (case hr of None \<Rightarrow> False | Some x \<Rightarrow> Cancelled x))"
  by (simp add: merge_result_def Let_def split: option.splits)

lemma Dispatch_step_considered:
  assumes "(DCancelled (fst st), fst (snd st)) = considered s subs w (length subs)"
  shows "(DCancelled (fst (Dispatch_step s k sub st)), fst (snd (Dispatch_step s k sub st)))
           = considered s (subs @ [sub]) w (Suc (length subs))"
proof -
  obtain r wi calls where st: "st = (r, wi, calls)" by (cases st)
  have c: "considered s (subs @ [sub]) w (length subs) = (DCancelled r, wi)"
    using assms by (simp add: considered_append st)
  show ?thesis
    by (simp add: c st Dispatch_step_def DCancelled_merge_result
        split: prod.splits sum.splits option.splits)
qed

lemma Dispatch_loop_considered:
  "(DCancelled (fst (Dispatch_loop s 0 subs (new_result, w, []))),
    fst (snd (Dispatch_loop s 0 subs (new_result, w, []))))
     = considered s subs w (length subs)"
proof (induction subs rule: rev_induct)
  case Nil
  show ?case by (simp add: new_result_def)
next
  case (snoc sub subs)
  show ?case
    unfolding Dispatch_loop_snoc length_append_singleton
    by (rule Dispatch_step_considered) (rule snoc.IH)
qed

lemma cancelled_so_far_considered:
  assumes "i \<le> length (subscriptions_of d event)"
  shows "cancelled_so_far d event s w i = fst (considered s (subscriptions_of d event) w i)"
proof -
  let ?subs = "subscriptions_of d event"
  have "cancelled_so_far d event s w i
      = fst (considered s (take i ?subs) w (length (take i ?subs)))"
    unfolding cancelled_so_far_def
    using Dispatch_loop_considered [of s "take i ?subs" w] by (metis fst_conv)
  also have "\<dots> = fst (considered s ?subs w i)"
    using assms by (simp add: considered_take min_absorb2)
  finally show ?thesis .
qed

lemma calls_Dispatch_loop_invoked:
  "snd (snd (Dispatch_loop s 0 subs (new_result, w, []))) = invoked s subs w"
proof -
  have "filter (\<lambda>i. \<not> (DCancelled (fst (Dispatch_loop s 0 (take i subs) (new_result, w, [])))
                      \<and> IgnoreCancelled (subs ! i))) [0..<length subs]
      = filter (\<lambda>i. \<not> (fst (considered s subs w i) \<and> IgnoreCancelled (subs ! i)))
          [0..<length subs]"
  proof (rule filter_cong [OF refl])
    fix i assume "i \<in> set [0..<length subs]"
    then have i: "i \<le> length subs" by simp
    have "DCancelled (fst (Dispatch_loop s 0 (take i subs) (new_result, w, [])))
        = fst (considered s (take i subs) w (length (take i subs)))"
      using Dispatch_loop_considered [of s "take i subs" w] by (metis fst_conv)
    also have "\<dots> = fst (considered s subs w i)"
      using i by (simp add: considered_take min_absorb2)
    finally show "(\<not> (DCancelled (fst (Dispatch_loop s 0 (take i subs) (new_result, w, [])))
                      \<and> IgnoreCancelled (subs ! i)))
       = (\<not> (fst (considered s subs w i) \<and> IgnoreCancelled (subs ! i)))"
      by simp
  qed
  then show ?thesis
    by (simp only: calls_Dispatch_loop invoked_def snd_conv append_Nil)
qed

lemma state_considered:
  "n \<le> length subs \<Longrightarrow>
   snd (considered s subs w n) =
     fold (\<lambda>i w. snd (Handler (subs ! i) w s))
       (filter (\<lambda>i. \<not> (fst (considered s subs w i) \<and> IgnoreCancelled (subs ! i))) [0..<n]) w"
proof (induction n)
  case 0
  show ?case by simp
next
  case (Suc n)
  then have IH: "snd (considered s subs w n) =
     fold (\<lambda>i w. snd (Handler (subs ! i) w s))
       (filter (\<lambda>i. \<not> (fst (considered s subs w i) \<and> IgnoreCancelled (subs ! i))) [0..<n]) w"
    by simp
  obtain c wi where cw: "considered s subs w n = (c, wi)" by (cases "considered s subs w n")
  show ?case
    using IH by (simp add: cw split: prod.splits sum.splits option.splits)
qed

lemma invoked_snoc:
  "invoked s (subs @ [sub]) w =
     invoked s subs w @
       (if fst (considered s subs w (length subs)) \<and> IgnoreCancelled sub then []
        else [length subs])"
proof -
  let ?P = "\<lambda>xs i. \<not> (fst (considered s xs w i) \<and> IgnoreCancelled (xs ! i))"
  have same: "filter (?P (subs @ [sub])) [0..<length subs] = filter (?P subs) [0..<length subs]"
    by (rule filter_cong) (simp_all add: nth_append considered_append)
  have last: "?P (subs @ [sub]) (length subs) =
      (\<not> (fst (considered s subs w (length subs)) \<and> IgnoreCancelled sub))"
    by (simp add: considered_append)
  show ?thesis
    unfolding invoked_def using same last by (simp del: de_Morgan_conj not_imp)
qed

lemma returned_append:
  "i < length xs \<Longrightarrow> returned s (xs @ ys) w i = returned s xs w i"
  by (simp add: returned_def considered_append nth_append)

lemma returned_modifications_append:
  "i < length xs \<Longrightarrow> returned_modifications s (xs @ ys) w i = returned_modifications s xs w i"
  by (simp add: returned_modifications_def returned_append)

lemma invoked_bound: "i \<in> set (invoked s subs w) \<Longrightarrow> i < length subs"
  by (simp add: invoked_def)

subsection \<open>Recording handlers\<close>

lemma Dispatch_step_recording:
  "Dispatch_step s i (recording ev (i, sub)) (r, (w, seen), calls) =
     (case Dispatch_step s i sub (r, w, calls) of (r', w', calls') \<Rightarrow>
        (r', (w', seen @ (if DCancelled r \<and> IgnoreCancelled sub then [] else [(ev, i, s)])),
         calls'))"
  by (simp add: Dispatch_step_def recording_def split: prod.splits sum.splits)

lemma Dispatch_loop_recording:
  "Dispatch_loop s 0 (map (recording ev) (enumerate 0 subs)) (r0, (w, []), []) =
     (case Dispatch_loop s 0 subs (r0, w, []) of (r, w', calls) \<Rightarrow>
        (r, (w', map (\<lambda>i. (ev, i, s)) calls), calls))"
proof (induction subs rule: rev_induct)
  case Nil
  show ?case by simp
next
  case (snoc sub subs)
  obtain r w' calls where L: "Dispatch_loop s 0 subs (r0, w, []) = (r, w', calls)"
    by (cases "Dispatch_loop s 0 subs (r0, w, [])") 
  have e: "map (recording ev) (enumerate 0 (subs @ [sub])) =
      map (recording ev) (enumerate 0 subs) @ [recording ev (length subs, sub)]"
    by (simp add: enumerate_append_eq)
  obtain r2 w2 calls2 where S: "Dispatch_step s (length subs) sub (r, w', calls) = (r2, w2, calls2)"
    by (cases "Dispatch_step s (length subs) sub (r, w', calls)")
  have c: "calls2 =
      calls @ (if DCancelled r \<and> IgnoreCancelled sub then [] else [length subs])"
    using calls_Dispatch_step [of s "length subs" sub "(r, w', calls)"] by (simp add: S)
  have IH: "Dispatch_loop s 0 (map (recording ev) (enumerate 0 subs)) (r0, (w, []), []) =
      (r, (w', map (\<lambda>i. (ev, i, s)) calls), calls)"
    using snoc.IH by (simp add: L)
  show ?case
    unfolding e Dispatch_loop_snoc
    by (simp add: L IH Dispatch_step_recording S c)
qed

lemma enumerate_Nil_iff: "(enumerate n xs = []) = (xs = [])"
  by (cases xs) simp_all

lemma subscriptions_of_recording_all:
  "subscriptions_of (recording_all d) event =
     map (recording event) (enumerate 0 (subscriptions_of d event))"
  by (simp add: subscriptions_of_def recording_all_def split: option.splits)

lemma recorded_Dispatch:
  "recorded (Dispatch (recording_all d) event s el (w, [])) =
     map (\<lambda>i. (event, i, s)) (calls_of (Dispatch d event s el w))"
proof (cases "subscriptions_of d event = []")
  case True
  then show ?thesis
    by (simp add: Dispatch_def recorded_def state_of_def calls_of_def
        subscriptions_of_recording_all)
next
  case False
  then show ?thesis
    by (simp add: Dispatch_def recorded_def state_of_def calls_of_def Let_def
        subscriptions_of_recording_all Dispatch_loop_recording enumerate_Nil_iff
        split: prod.splits)
qed

lemma Dispatch_calls_invoked:
  "calls_of (Dispatch d event s el w) = invoked s (subscriptions_of d event) w"
proof (cases "subscriptions_of d event = []")
  case True
  then show ?thesis by (simp add: Dispatch_def calls_of_def invoked_def)
next
  case False
  then show ?thesis
    by (simp add: Dispatch_nonempty(2) calls_Dispatch_loop_invoked)
qed

lemma Dispatch_state:
  "state_of (Dispatch d event s el w) =
     snd (considered s (subscriptions_of d event) w (length (subscriptions_of d event)))"
proof (cases "subscriptions_of d event = []")
  case True
  then show ?thesis by (simp add: Dispatch_def state_of_def)
next
  case False
  have "state_of (Dispatch d event s el w) =
      fst (snd (Dispatch_loop s 0 (subscriptions_of d event) (new_result, w, [])))"
    using False by (simp add: Dispatch_def state_of_def Let_def split: prod.splits)
  then show ?thesis
    using Dispatch_loop_considered [of s "subscriptions_of d event" w] by (metis snd_conv)
qed

lemma Dispatch_cancelled:
  "DCancelled (result_of (Dispatch d event s el w)) =
     fst (considered s (subscriptions_of d event) w (length (subscriptions_of d event)))"
proof (cases "subscriptions_of d event = []")
  case True
  then show ?thesis by (simp add: Dispatch_def result_of_def zero_result_def)
next
  case False
  then show ?thesis
    using Dispatch_loop_considered [of s "subscriptions_of d event" w]
    by (simp add: Dispatch_nonempty(1)) (metis fst_conv)
qed

text \<open>
  Claim C1. A dispatch of \<open>event\<close> with a payload invokes exactly the handlers at
  the positions \<open>invoked\<close> of the list subscribed to that event: those for which,
  at the moment the subscription is considered, it is not the case that the accumulated
  result is cancelled and the subscription's \<open>IgnoreCancelled\<close> flag is set. The
  calls the loop makes are these positions, in order. When every handler of the
  dispatcher records its own invocations, what is recorded is one invocation for each
  of these positions, in order, each for the dispatched event and with the payload:
  no handler subscribed to another event is invoked, none is invoked twice. The state
  the dispatch leaves is the one obtained by applying the handlers at these positions,
  in order, to the payload. The accumulated flag that the definition of the moment
  speaks of is the \<^verbatim>\<open>result.Cancelled\<close> of the loop, at every position and at the end.
\<close>

theorem Dispatch_invokes_exactly:
  "calls_of (Dispatch d event serialized elapsed w) =
     invoked serialized (subscriptions_of d event) w
   \<and> recorded (Dispatch (recording_all d) event serialized elapsed (w, [])) =
       map (\<lambda>i. (event, i, serialized)) (invoked serialized (subscriptions_of d event) w)
   \<and> state_of (Dispatch d event serialized elapsed w) =
       fold (\<lambda>i w. snd (Handler (subscriptions_of d event ! i) w serialized))
         (invoked serialized (subscriptions_of d event) w) w
   \<and> DCancelled (result_of (Dispatch d event serialized elapsed w)) =
       fst (considered serialized (subscriptions_of d event) w
              (length (subscriptions_of d event)))
   \<and> (\<forall>i \<le> length (subscriptions_of d event).
         cancelled_so_far d event serialized w i =
           fst (considered serialized (subscriptions_of d event) w i))"
proof (intro conjI allI impI)
  show "calls_of (Dispatch d event serialized elapsed w) =
     invoked serialized (subscriptions_of d event) w"
    by (rule Dispatch_calls_invoked)
  show "recorded (Dispatch (recording_all d) event serialized elapsed (w, [])) =
       map (\<lambda>i. (event, i, serialized)) (invoked serialized (subscriptions_of d event) w)"
    by (simp only: recorded_Dispatch Dispatch_calls_invoked)
  show "state_of (Dispatch d event serialized elapsed w) =
       fold (\<lambda>i w. snd (Handler (subscriptions_of d event ! i) w serialized))
         (invoked serialized (subscriptions_of d event) w) w"
    unfolding Dispatch_state invoked_def by (rule state_considered) simp
  show "DCancelled (result_of (Dispatch d event serialized elapsed w)) =
       fst (considered serialized (subscriptions_of d event) w
              (length (subscriptions_of d event)))"
    by (rule Dispatch_cancelled)
  show "cancelled_so_far d event serialized w i =
           fst (considered serialized (subscriptions_of d event) w i)"
    if "i \<le> length (subscriptions_of d event)" for i
    using that by (rule cancelled_so_far_considered)
qed

lemmas scenario_defs = S4_dispatcher_def S4_H1_def S4_H2_def S5_dispatcher_def S5_H2_def
  S5_H3_def S6_dispatcher_def S6_H1_def S6_H2_def S6_guest_dispatcher_def S6_guest_H1_def
  S6_guest_H2_def returning_def guest_returning_def createEventHandler_def NewDispatcher_def

lemmas dispatch_defs = subscriptions_of_def Dispatch_def Dispatch_step_def merge_result_def
  new_result_def zero_result_def calls_of_def result_of_def dispatcher_of_def
  modification_of_def cancelled_so_far_def

lemmas subscribe_defs = Subscribe_def SortFunc_def insertionSortCmpFunc_def cmp_priority_def

theorem Dispatch_invokes_exactly_witness:
  "calls_of (Dispatch S5_dispatcher ''player_chat'' [1] 0 ()) = [0, 2]
   \<and> recorded (Dispatch (recording_all S5_dispatcher) ''player_chat'' [1] 0 ((), []))
       = [(''player_chat'', 0, [1]), (''player_chat'', 2, [1])]
   \<and> invoked [1] (subscriptions_of S5_dispatcher ''player_chat'') () = [0, 2]
   \<and> (1::nat) \<le> length (subscriptions_of S5_dispatcher ''player_chat'')
   \<and> cancelled_so_far S5_dispatcher ''player_chat'' [1] () 1
   \<and> \<not> cancelled_so_far S5_dispatcher ''player_chat'' [1] () 0
   \<and> recorded (Dispatch (recording_all S5_dispatcher) ''player_join'' [1] 0 ((), [])) = []
   \<and> state_of (Dispatch counting_dispatcher ''player_chat'' [1] 0 0) = 101"
  using Dispatch_invokes_exactly [of S5_dispatcher "''player_chat''" "[1]" 0 "()"]
    Dispatch_invokes_exactly [of S5_dispatcher "''player_join''" "[1]" 0 "()"]
    Dispatch_invokes_exactly [of counting_dispatcher "''player_chat''" "[1]" 0 0]
  by (simp add: scenario_defs dispatch_defs invoked_def upt_rec numeral_nat
      counting_dispatcher_def adding_def)

section \<open>Scenario S4: cancellation\<close>

text \<open>The scenario's dispatcher is what subscribing H2 and then H1 builds.\<close>

lemma S4_subscribed:
  "Subscribe_all NewDispatcher ''player_chat'' [S4_H2, S4_H1] = Some S4_dispatcher"
  by (simp add: subscribe_defs scenario_defs subscriptions_of_def)

text \<open>
  Claim C2 as stated fails: in scenario S4 the dispatch calls H1 and then H2, and the
  result counts two handlers. H2 has \<open>IgnoreCancelled = False\<close>, so the test
  \<^verbatim>\<open>result.Cancelled && sub.IgnoreCancelled\<close> does not skip it.
\<close>

theorem S4_counterexample:
  "calls_of (Dispatch S4_dispatcher ''player_chat'' [] 0 ()) = [0, 1]
   \<and> DCancelled (result_of (Dispatch S4_dispatcher ''player_chat'' [] 0 ())) = True
   \<and> Handlers (result_of (Dispatch S4_dispatcher ''player_chat'' [] 0 ())) = 2"
  by (simp add: scenario_defs dispatch_defs)

text \<open>
  Claim C2, amended. With two subscriptions, the first returning cancelled: when the
  second has \<open>IgnoreCancelled = False\<close> (scenario S4) both handlers are called, the
  result is cancelled, and it counts two handlers when the second returns without an
  error and one when it returns an error; when the second has \<open>IgnoreCancelled = True\<close>
  only the first is called, and the result is cancelled and counts one handler.
\<close>

theorem S4_amended:
  assumes subs: "subscriptions_of d event = [h1, h2]"
    and h1: "Handler h1 w s = (Inr (Some r1), w1)" "Cancelled r1"
  shows "(\<not> IgnoreCancelled h2 \<longrightarrow>
            calls_of (Dispatch d event s el w) = [0, 1]
            \<and> DCancelled (result_of (Dispatch d event s el w))
            \<and> Handlers (result_of (Dispatch d event s el w)) =
                (case fst (Handler h2 w1 s) of Inl err \<Rightarrow> 1 | Inr r \<Rightarrow> 2))
       \<and> (IgnoreCancelled h2 \<longrightarrow>
            calls_of (Dispatch d event s el w) = [0]
            \<and> DCancelled (result_of (Dispatch d event s el w))
            \<and> Handlers (result_of (Dispatch d event s el w)) = 1)"
proof -
  have ne: "subscriptions_of d event \<noteq> []" using subs by simp
  show ?thesis
    using h1
    by (auto simp: Dispatch_nonempty [OF ne] subs Dispatch_step_def merge_result_def
        new_result_def Let_def split: prod.splits sum.splits option.splits)
qed

theorem S4_amended_witness:
  "subscriptions_of S4_dispatcher ''player_chat'' = [S4_H1, S4_H2]
   \<and> Handler S4_H1 () [] =
       (Inr (Some \<lparr>Cancelled = True, Modifications = Map.empty, Error = []\<rparr>), ())
   \<and> \<not> IgnoreCancelled S4_H2
   \<and> calls_of (Dispatch S4_dispatcher ''player_chat'' [] 0 ()) = [0, 1]
   \<and> DCancelled (result_of (Dispatch S4_dispatcher ''player_chat'' [] 0 ()))
   \<and> Handlers (result_of (Dispatch S4_dispatcher ''player_chat'' [] 0 ())) = 2"
  using S4_amended [of S4_dispatcher "''player_chat''" S4_H1 S4_H2 "()" "[]"
      "\<lparr>Cancelled = True, Modifications = Map.empty, Error = []\<rparr>" "()" 0]
  by (simp add: scenario_defs subscriptions_of_def)

section \<open>Modifications\<close>

lemma S6_guest_subscribed:
  "Subscribe_all NewDispatcher ''player_chat'' [S6_guest_H1, S6_guest_H2] =
     Some S6_guest_dispatcher"
  by (simp add: subscribe_defs S6_guest_dispatcher_def S6_guest_H1_def S6_guest_H2_def
      NewDispatcher_def subscriptions_of_def)

text \<open>
  Claim C5 as stated fails: the bytes after the first are not parsed. In scenario S6
  with guests whose output carries the table, both handlers are called and the final
  modifications are empty: there is no value for \<^verbatim>\<open>message\<close>.
\<close>

theorem S6_guest_counterexample:
  "calls_of (Dispatch S6_guest_dispatcher ''player_chat'' [] 0 ()) = [0, 1]
   \<and> Handlers (result_of (Dispatch S6_guest_dispatcher ''player_chat'' [] 0 ())) = 2
   \<and> DModifications (result_of (Dispatch S6_guest_dispatcher ''player_chat'' [] 0 ()))
       = Some Map.empty
   \<and> modification_of (result_of (Dispatch S6_guest_dispatcher ''player_chat'' [] 0 ()))
       ''message'' = None"
  by (simp add: scenario_defs dispatch_defs manager_parseEventResult_def Let_def)

lemma merged_snoc:
  "merged s (subs @ [sub]) w =
     (if fst (considered s subs w (length subs)) \<and> IgnoreCancelled sub then merged s subs w
      else merged s subs w ++ returned_modifications s (subs @ [sub]) w (length subs))"
proof -
  have eq: "map (returned_modifications s (subs @ [sub]) w) (invoked s subs w)
      = map (returned_modifications s subs w) (invoked s subs w)"
    by (rule map_cong [OF refl]) (simp add: returned_modifications_append invoked_bound)
  show ?thesis by (simp add: merged_def invoked_snoc eq)
qed

lemma Dispatch_step_merged:
  assumes c: "(DCancelled (fst st), fst (snd st)) = considered s subs w (length subs)"
    and m: "DModifications (fst st) = Some (merged s subs w)"
  shows "DModifications (fst (Dispatch_step s k sub st)) = Some (merged s (subs @ [sub]) w)"
proof -
  obtain r wi calls where st: "st = (r, wi, calls)" by (cases st)
  have c': "considered s subs w (length subs) = (DCancelled r, wi)"
    using c by (simp add: st)
  have m': "DModifications r = Some (merged s subs w)" using m by (simp add: st)
  have ret: "returned s (subs @ [sub]) w (length subs) = fst (Handler sub wi s)"
    by (simp add: returned_def considered_append c')
  show ?thesis
    by (auto simp: st Dispatch_step_def merge_result_def Let_def m' merged_snoc c'
        returned_modifications_def ret split: prod.splits sum.splits option.splits)
qed

lemma Dispatch_loop_merged:
  "DModifications (fst (Dispatch_loop s 0 subs (new_result, w, []))) = Some (merged s subs w)"
proof (induction subs rule: rev_induct)
  case Nil
  show ?case by (simp add: new_result_def merged_def invoked_def)
next
  case (snoc sub subs)
  show ?case
    unfolding Dispatch_loop_snoc
    by (rule Dispatch_step_merged) (rule Dispatch_loop_considered, rule snoc.IH)
qed

lemma foldl_map_add_key:
  "foldl (++) m0 ms k =
     (if filter (\<lambda>m. m k \<noteq> None) ms = [] then m0 k
      else last (filter (\<lambda>m. m k \<noteq> None) ms) k)"
proof (induction ms rule: rev_induct)
  case Nil
  show ?case by simp
next
  case (snoc m ms)
  show ?case
  proof (cases "m k")
    case None
    then show ?thesis using snoc by (simp add: map_add_def)
  next
    case (Some v)
    then show ?thesis by (simp add: map_add_def)
  qed
qed

lemma merged_key:
  "merged s subs w k =
     (if filter (\<lambda>i. returned_modifications s subs w i k \<noteq> None) (invoked s subs w) = []
      then None
      else returned_modifications s subs w
             (last (filter (\<lambda>i. returned_modifications s subs w i k \<noteq> None)
                          (invoked s subs w))) k)"
  unfolding merged_def foldl_map_add_key filter_map
  by (simp add: last_map comp_def)

lemma Dispatch_modifications:
  "DModifications (result_of (Dispatch d event s el w)) =
     (if subscriptions_of d event = [] then None
      else Some (merged s (subscriptions_of d event) w))"
proof (cases "subscriptions_of d event = []")
  case True
  then show ?thesis by (simp add: Dispatch_def result_of_def zero_result_def)
next
  case False
  then show ?thesis by (simp add: Dispatch_nonempty(1) Dispatch_loop_merged)
qed

lemma merged_empty: "merged s [] w = Map.empty"
  by (simp add: merged_def invoked_def)

text \<open>
  Claim C5, amended. Both parsers return empty modifications for every output, whatever
  follows the first byte (and they cannot fail). \<open>Dispatch\<close> merges the modifications
  that the handlers return to it: the final table is the nil map when the event has no
  subscription, and otherwise the tables returned by the handlers invoked, merged in
  the order of the invocations, where a handler that returns an error or the nil result
  contributes nothing and changes nothing, and a subscription that is skipped
  contributes nothing. So the final value of a key is the one given by the last
  handler invoked that returned a value for it, and the key is absent when no handler
  invoked returned one. In scenario S6 with handlers that return the two results
  themselves, the final value of \<^verbatim>\<open>message\<close> is \<^verbatim>\<open>world\<close>.
\<close>

theorem modifications_merge:
  "Modifications (manager_parseEventResult data) = Map.empty
   \<and> Modifications (runtime_parseEventResult data) = Map.empty
   \<and> DModifications (result_of (Dispatch d event s el w)) =
       (if subscriptions_of d event = [] then None
        else Some (foldl (++) Map.empty
                     (map (returned_modifications s (subscriptions_of d event) w)
                          (invoked s (subscriptions_of d event) w))))
   \<and> modification_of (result_of (Dispatch d event s el w)) k =
       (if filter (\<lambda>i. returned_modifications s (subscriptions_of d event) w i k \<noteq> None)
             (invoked s (subscriptions_of d event) w) = []
        then None
        else returned_modifications s (subscriptions_of d event) w
               (last (filter (\<lambda>i. returned_modifications s (subscriptions_of d event) w i k \<noteq> None)
                        (invoked s (subscriptions_of d event) w))) k)
   \<and> calls_of (Dispatch d event s el w) = invoked s (subscriptions_of d event) w
   \<and> modification_of (result_of (Dispatch S6_dispatcher ''player_chat'' data 0 ())) ''message''
        = Some ''world''"
proof (intro conjI)
  show "DModifications (result_of (Dispatch d event s el w)) =
       (if subscriptions_of d event = [] then None
        else Some (foldl (++) Map.empty
                     (map (returned_modifications s (subscriptions_of d event) w)
                          (invoked s (subscriptions_of d event) w))))"
    by (simp only: Dispatch_modifications merged_def)
  show "modification_of (result_of (Dispatch d event s el w)) k =
       (if filter (\<lambda>i. returned_modifications s (subscriptions_of d event) w i k \<noteq> None)
             (invoked s (subscriptions_of d event) w) = []
        then None
        else returned_modifications s (subscriptions_of d event) w
               (last (filter (\<lambda>i. returned_modifications s (subscriptions_of d event) w i k \<noteq> None)
                        (invoked s (subscriptions_of d event) w))) k)"
  proof (cases "subscriptions_of d event = []")
    case True
    then show ?thesis
      by (simp add: modification_of_def Dispatch_modifications invoked_def)
  next
    case False
    then have "modification_of (result_of (Dispatch d event s el w)) k =
        merged s (subscriptions_of d event) w k"
      by (simp add: modification_of_def Dispatch_modifications)
    then show ?thesis by (simp only: merged_key)
  qed
  show "calls_of (Dispatch d event s el w) = invoked s (subscriptions_of d event) w"
    by (rule Dispatch_calls_invoked)
  show "modification_of (result_of (Dispatch S6_dispatcher ''player_chat'' data 0 ())) ''message''
        = Some ''world''"
    by (simp add: scenario_defs dispatch_defs Let_def)
qed (simp_all add: manager_parse_Modifications runtime_parse_Modifications)

theorem modifications_merge_witness:
  "calls_of (Dispatch mixed_dispatcher ''player_chat'' [] 0 ()) = [0, 1, 2, 3, 5]
   \<and> modification_of (result_of (Dispatch mixed_dispatcher ''player_chat'' [] 0 ())) ''a'' = Some ''3''
   \<and> modification_of (result_of (Dispatch mixed_dispatcher ''player_chat'' [] 0 ())) ''b'' = Some ''2''
   \<and> modification_of (result_of (Dispatch mixed_dispatcher ''player_chat'' [] 0 ())) ''c'' = Some ''4''
   \<and> modification_of (result_of (Dispatch mixed_dispatcher ''player_chat'' [] 0 ())) ''d'' = None
   \<and> invoked [] (subscriptions_of mixed_dispatcher ''player_chat'') () = [0, 1, 2, 3, 5]
   \<and> filter (\<lambda>i. returned_modifications [] (subscriptions_of mixed_dispatcher ''player_chat'') () i ''a'' \<noteq> None)
        (invoked [] (subscriptions_of mixed_dispatcher ''player_chat'') ()) = [0, 5]
   \<and> Errors (result_of (Dispatch mixed_dispatcher ''player_chat'' [] 0 ())) = [''handler failed'']
   \<and> Handlers (result_of (Dispatch mixed_dispatcher ''player_chat'' [] 0 ())) = 4"
  using modifications_merge [of "[]" mixed_dispatcher "''player_chat''" "[]" 0 "()" "''a''"]
  by (simp add: mixed_dispatcher_def NewDispatcher_def returning_def dispatch_defs Let_def
      invoked_def returned_modifications_def returned_def upt_rec numeral_nat)

section \<open>A dispatch without subscriptions\<close>

lemma Dispatch_empty:
  "subscriptions_of d event = [] \<Longrightarrow> Dispatch d event s el w = ((zero_result, w, []), d)"
  by (simp add: Dispatch_def)

lemma Dispatch_eventCount:
  "subscriptions_of d event \<noteq> [] \<Longrightarrow>
     eventCount (dispatcher_of (Dispatch d event s el w)) event =
       Some (count_of (eventCount d) event + 1)"
  by (simp add: Dispatch_def dispatcher_of_def Let_def split: prod.splits)

lemma Dispatch_changes_dispatcher:
  assumes "subscriptions_of d event \<noteq> []"
  shows "dispatcher_of (Dispatch d event s el w) \<noteq> d"
proof
  assume eq: "dispatcher_of (Dispatch d event s el w) = d"
  from Dispatch_eventCount [OF assms, of s el w] eq
  have "eventCount d event = Some (count_of (eventCount d) event + 1)" by simp
  then show False by (simp add: count_of_def split: option.splits)
qed

text \<open>
  Claim C9. When the event has no subscriptions, \<open>Dispatch\<close> returns the zero value of
  \<^verbatim>\<open>DispatchResult\<close> (no handlers, not cancelled, the nil map, zero duration), calls no
  handler, and returns the dispatcher as it was, counters included. The dispatcher is
  left unchanged only then: with at least one subscription in the snapshot the
  event's counter is incremented.
\<close>

theorem Dispatch_no_subscriptions:
  "(subscriptions_of d event = [] \<longrightarrow>
      result_of (Dispatch d event s el w) = zero_result
      \<and> Handlers (result_of (Dispatch d event s el w)) = 0
      \<and> DCancelled (result_of (Dispatch d event s el w)) = False
      \<and> DModifications (result_of (Dispatch d event s el w)) = None
      \<and> Duration (result_of (Dispatch d event s el w)) = 0
      \<and> Errors (result_of (Dispatch d event s el w)) = []
      \<and> calls_of (Dispatch d event s el w) = [])
   \<and> (dispatcher_of (Dispatch d event s el w) = d) = (subscriptions_of d event = [])"
proof (cases "subscriptions_of d event = []")
  case True
  then show ?thesis
    by (simp add: Dispatch_empty dispatcher_of_def result_of_def calls_of_def zero_result_def)
next
  case False
  then show ?thesis
    using Dispatch_changes_dispatcher [OF False, of s el w] by simp
qed

theorem Dispatch_no_subscriptions_witness:
  "subscriptions_of (NewDispatcher :: unit Dispatcher) ''player_chat'' = []
   \<and> result_of (Dispatch (NewDispatcher :: unit Dispatcher) ''player_chat'' [] 5 ()) = zero_result
   \<and> dispatcher_of (Dispatch (NewDispatcher :: unit Dispatcher) ''player_chat'' [] 5 ()) = NewDispatcher
   \<and> subscriptions_of S4_dispatcher ''player_chat'' \<noteq> []
   \<and> dispatcher_of (Dispatch S4_dispatcher ''player_chat'' [] 5 ()) \<noteq> S4_dispatcher"
  using Dispatch_no_subscriptions [of "NewDispatcher :: unit Dispatcher" "''player_chat''" "[]" 5 "()"]
    Dispatch_no_subscriptions [of S4_dispatcher "''player_chat''" "[]" 5 "()"]
  by (simp add: subscriptions_of_def NewDispatcher_def S4_dispatcher_def)

section \<open>The memory cap\<close>

text \<open>
  \<^verbatim>\<open>Manager.loadPlugin\<close> caps the memory at 16 pages per megabyte of the effective
  limit, as long as the limit is not negative and the number of pages fits a uint32.
\<close>

lemma loadPlugin_MaxPages:
  assumes "0 \<le> sint (MaxMemoryMB (GetEffectiveLimits c (Limits manifest)))"
    and "sint (MaxMemoryMB (GetEffectiveLimits c (Limits manifest))) < 2 ^ 28"
  shows "\<exists>mem. Memory (loadPlugin_extismManifest c manifest wasmPath) = Some mem
           \<and> uint (MaxPages mem) = sint (MaxMemoryMB (GetEffectiveLimits c (Limits manifest))) * 16"
proof -
  define x where "x = MaxMemoryMB (GetEffectiveLimits c (Limits manifest))"
  have x: "0 \<le> sint x" "sint x < 2 ^ 28" using assms by (simp_all add: x_def)
  have ux: "uint x = sint x"
    using x by (simp add: uint_sint take_bit_int_eq_self)
  have "uint (x * 16) = (uint x * 16) mod 2 ^ 64"
    by (simp add: uint_word_ariths)
  also have "\<dots> = sint x * 16" using x by (simp add: ux)
  finally have prod: "uint (x * 16) = sint x * 16" .
  have "uint (ucast (x * 16) :: 32 word) = uint (x * 16) mod 2 ^ 32"
    by (simp add: unsigned_ucast_eq take_bit_eq_mod)
  also have "\<dots> = sint x * 16" using x by (simp add: prod)
  finally show ?thesis
    by (simp add: loadPlugin_extismManifest_def Let_def x_def)
qed

text \<open>
  Claim C6 at a failing input: for a manifest that asks for 64 MB, under the default
  configuration, \<^verbatim>\<open>Manager.loadPlugin\<close> caps the memory at 1024 pages, and
  \<^verbatim>\<open>runtime.NewInstance\<close> sets no cap at all.
\<close>

theorem NewInstance_sets_no_memory_cap:
  "MaxMemoryMB (GetEffectiveLimits DefaultConfig (Limits manifest_64MB)) = 64
   \<and> Memory (loadPlugin_extismManifest DefaultConfig manifest_64MB ''one.wasm'')
       = Some \<lparr>MaxPages = 1024\<rparr>
   \<and> Memory (NewInstance_manifest DefaultConfig manifest_64MB [0, 97, 115, 109]) = None"
  by (simp add: GetEffectiveLimits_def DefaultConfig_def DefaultResourceLimits_def
      manifest_64MB_def loadPlugin_extismManifest_def NewInstance_manifest_def
      min_int64_def min_uint64_def Let_def)

section \<open>Storage round trip\<close>

lemma storage_get_set: "storage_get (storage_set d p k v) p k = (v, True, None)"
  by (simp add: storage_get_def storage_set_def)

lemma storage_get_delete: "storage_get (storage_delete d p k) p k = ([], False, None)"
  by (simp add: storage_get_def storage_delete_def split: option.splits)

lemma storage_get_set_other:
  "p' \<noteq> p \<Longrightarrow> storage_get (storage_set d p k v) p' k' = storage_get d p' k'"
  by (simp add: storage_get_def storage_set_def)

lemma file_after_Set:
  "file_data (file_after (FileStorage_Set s disk p k v)) = storage_set (file_data s) p k v"
  by (simp add: FileStorage_Set_def file_after_def Let_def split: prod.splits)

lemma file_after_Delete:
  "file_data (file_after (FileStorage_Delete s disk p k)) = storage_delete (file_data s) p k"
  by (simp add: FileStorage_Delete_def file_after_def storage_delete_def Let_def
      split: prod.splits option.splits)

text \<open>
  Claim C7. For both backends, from any state of the store (and, for the file-backed
  one, any state of the disk, whether or not the write succeeds): after
  \<open>Set p k v\<close>, \<open>Get p k\<close> returns \<open>v\<close> and present, with no error; and after
  \<open>Delete p k\<close>, also when it follows the \<open>Set\<close>, \<open>Get p k\<close> reports absent.
\<close>

theorem storage_round_trip:
  "MemoryStorage_Get (memory_after (MemoryStorage_Set s p k v)) p k = (v, True, None)
   \<and> MemoryStorage_Get (memory_after (MemoryStorage_Delete s p k)) p k = ([], False, None)
   \<and> MemoryStorage_Get (memory_after (MemoryStorage_Delete
        (memory_after (MemoryStorage_Set s p k v)) p k)) p k = ([], False, None)
   \<and> FileStorage_Get (file_after (FileStorage_Set fs disk p k v)) p k = (v, True, None)
   \<and> FileStorage_Get (file_after (FileStorage_Delete fs disk p k)) p k = ([], False, None)
   \<and> FileStorage_Get (file_after (FileStorage_Delete
        (file_after (FileStorage_Set fs disk p k v))
        (disk_after (FileStorage_Set fs disk p k v)) p k)) p k = ([], False, None)"
  by (simp add: MemoryStorage_Get_def MemoryStorage_Set_def MemoryStorage_Delete_def
      memory_after_def FileStorage_Get_def file_after_Set file_after_Delete
      storage_get_set storage_get_delete)

text \<open>
  A disk on which the plugin's directory cannot be created, and one that accepts every
  write.
\<close>

lemma Join_plugin_path:
  "Join ''plugin_data'' ''p.one'' = ''plugin_data/p.one''
   \<and> Join ''plugin_data/p.one'' ''data.json'' = ''plugin_data/p.one/data.json''
   \<and> Join ''plugin_data/'' ''../p.one'' = ''p.one''"
  by (simp add: Join_def Clean_def)

theorem storage_round_trip_witness:
  "MemoryStorage_Get (memory_after (MemoryStorage_Set NewMemoryStorage ''p.one'' ''k'' [118, 49]))
      ''p.one'' ''k'' = ([118, 49], True, None)
   \<and> FileStorage_Get (file_after (FileStorage_Set \<lparr>basePath = ''plugin_data'', file_data = Map.empty\<rparr>
          \<lparr>files = Map.empty, mkdirAll = (\<lambda>path. Some ''mkdir plugin_data/p.one: permission denied''),
            writeFile = (\<lambda>path. None)\<rparr> ''p.one'' ''k'' [118, 49]))
      ''p.one'' ''k'' = ([118, 49], True, None)
   \<and> fst (FileStorage_Set \<lparr>basePath = ''plugin_data'', file_data = Map.empty\<rparr>
          \<lparr>files = Map.empty, mkdirAll = (\<lambda>path. Some ''mkdir plugin_data/p.one: permission denied''),
            writeFile = (\<lambda>path. None)\<rparr> ''p.one'' ''k'' [118, 49])
      = Some ''mkdir plugin_data/p.one: permission denied''
   \<and> files (disk_after (FileStorage_Set \<lparr>basePath = ''plugin_data'', file_data = Map.empty\<rparr>
          \<lparr>files = Map.empty, mkdirAll = (\<lambda>path. None), writeFile = (\<lambda>path. None)\<rparr>
          ''p.one'' ''k'' [118, 49])) ''plugin_data/p.one/data.json''
      = Some [''k'' \<mapsto> [118, 49]]"
  using storage_round_trip [of NewMemoryStorage "''p.one''" "''k''" "[118, 49]"
      "\<lparr>basePath = ''plugin_data'', file_data = Map.empty\<rparr>"
      "\<lparr>files = Map.empty, mkdirAll = (\<lambda>path. Some ''mkdir plugin_data/p.one: permission denied''),
        writeFile = (\<lambda>path. None)\<rparr>"]
  by (simp add: FileStorage_Set_def persist_def Join_plugin_path Let_def disk_after_def
      storage_set_def)

section \<open>The pool never holds more than its size\<close>

lemma pool_step_size: "pool_size (snd (pool_step p op)) = pool_size p"
  by (cases op)
     (auto simp: Acquire_def AcquireWait_def Release_def Close_def split: list.splits)

lemma pool_step_bounded:
  "int (length (instances p)) \<le> pool_size p \<Longrightarrow>
   int (length (instances (snd (pool_step p op)))) \<le> pool_size (snd (pool_step p op))"
  by (cases op)
     (auto simp: Acquire_def AcquireWait_def Release_def Close_def split: list.splits)

lemma pool_run_bounded:
  "int (length (instances p)) \<le> pool_size p \<Longrightarrow>
   int (length (instances (pool_run p ops))) \<le> pool_size (pool_run p ops)
   \<and> pool_size (pool_run p ops) = pool_size p"
proof (induction ops arbitrary: p)
  case Nil
  then show ?case by simp
next
  case (Cons op ops)
  from Cons.IH [OF pool_step_bounded [OF Cons.prems, of op]]
  show ?case by (simp add: pool_step_size)
qed

lemma NewPool_fill_bounded:
  "NewPool_fill create i n pool = Inr p \<Longrightarrow>
   length (instances p) = length (instances pool) + n \<and> pool_size p = pool_size pool \<and> closed p = closed pool"
  by (induction n arbitrary: i pool) (auto split: sum.splits)

lemma NewPool_bounded:
  assumes "NewPool cfg create size0 = Inr p"
  shows "int (length (instances p)) = pool_size p" and "\<not> closed p"
  using assms
  by (auto simp: NewPool_def Let_def split: if_splits dest!: NewPool_fill_bounded)

text \<open>
  Claim C10. \<open>Release\<close> always returns (it never stays blocked); when the pool is
  closed, or its buffer already holds \<open>size\<close> instances, the released instance is
  closed and the buffer is left as it was; and after any sequence of \<open>Acquire\<close>,
  \<open>AcquireWait\<close>, \<open>Release\<close> and \<open>Close\<close> on a pool that \<open>NewPool\<close> returned,
  \<open>Available\<close> is at most \<open>Size\<close>, which is the size the pool was made with.
\<close>

theorem Release_never_grows_pool:
  "fst (Release p inst) = Done
   \<and> (closed p \<or> Size p \<le> Available p \<longrightarrow>
        instances (snd (Release p inst)) = instances p
        \<and> destroyed (snd (Release p inst)) = destroyed p @ [inst])
   \<and> (NewPool cfg create size0 = Inr p0 \<longrightarrow>
        Available (pool_run p0 ops) \<le> Size (pool_run p0 ops)
        \<and> Size (pool_run p0 ops) = Size p0)"
proof -
  have "Available (pool_run p0 ops) \<le> Size (pool_run p0 ops) \<and> Size (pool_run p0 ops) = Size p0"
    if "NewPool cfg create size0 = Inr p0"
    using pool_run_bounded [of p0 ops] NewPool_bounded(1) [OF that]
    by (simp add: Available_def Size_def)
  then show ?thesis
    by (auto simp: Release_def Available_def Size_def)
qed

lemma NewPool_pool2: "NewPool DefaultConfig two_instances 2 = Inr pool2"
  by (simp add: NewPool_def two_instances_def pool2_def numeral_2_eq_2)

theorem Release_never_grows_pool_witness:
  "NewPool DefaultConfig two_instances 2 = Inr pool2
   \<and> Size pool2 \<le> Available pool2
   \<and> Release pool2 7 = (Done, pool2\<lparr>destroyed := [7]\<rparr>)
   \<and> Available (pool_run pool2
        [OpRelease 7, OpAcquire False False, OpRelease 8, OpRelease 9, OpClose, OpRelease 0]) \<le> 2"
  using Release_never_grows_pool [of pool2 7 DefaultConfig two_instances 2 pool2
     "[OpRelease 7, OpAcquire False False, OpRelease 8, OpRelease 9, OpClose, OpRelease 0]"]
    NewPool_pool2
  by (simp add: pool2_def Size_def Available_def Release_def)

section \<open>The order of the handlers\<close>

text \<open>
  Claim C3 at a failing input. Subscribing a handler of priority 1 and a handler of the
  least int64 priority, in either order, leaves the priority-1 subscription first:
  the comparison \<^verbatim>\<open>int(a.Priority - b.Priority)\<close> wraps around and is positive for
  the least priority against 1. A dispatch then calls the priority-1 handler before
  the other one, so the calls are not in ascending priority.
\<close>

theorem Subscribe_priority_overflow:
  "cmp_priority sub_min sub_one = 9223372036854775807
   \<and> Subscribe_all NewDispatcher ''player_chat'' [sub_one, sub_min] = Some one_min_dispatcher
   \<and> Subscribe_all NewDispatcher ''player_chat'' [sub_min, sub_one] = Some one_min_dispatcher
   \<and> map (\<lambda>i. sint (Priority (subscriptions_of one_min_dispatcher ''player_chat'' ! i)))
         (calls_of (Dispatch one_min_dispatcher ''player_chat'' [] 0 ()))
       = [1, - 9223372036854775808]"
  by (simp add: subscribe_defs dispatch_defs one_min_dispatcher_def sub_one_def sub_min_def
      returning_def NewDispatcher_def)

subsection \<open>Where the order is ascending and stable\<close>

text \<open>
  Priorities between \<open>-2^62\<close> and \<open>2^62\<close> (the conventional bands, -200 to 300, are
  far inside): there the subtraction of the comparison cannot wrap around.
\<close>

definition in_band :: "'w Subscription \<Rightarrow> bool" where
  "in_band s = (- (2 ^ 62) \<le> sint (Priority s) \<and> sint (Priority s) < 2 ^ 62)"

lemma cmp_priority_in_band:
  assumes "in_band a" and "in_band b"
  shows "(cmp_priority a b < 0) = (sint (Priority a) < sint (Priority b))"
proof -
  have "- (2 ^ 63) \<le> sint (Priority a) - sint (Priority b)"
    and "sint (Priority a) - sint (Priority b) < 2 ^ 63"
    using assms by (simp_all add: in_band_def)
  then have "signed_take_bit 63 (sint (Priority a) - sint (Priority b))
      = sint (Priority a) - sint (Priority b)"
    by (simp add: signed_take_bit_int_eq_self)
  then show ?thesis by (simp add: cmp_priority_def sint_word_diff)
qed

lemma insertion_inner_set: "set (insertion_inner cmp x left) = insert x (set left)"
  by (induction left) auto

lemma insertion_inner_length: "length (insertion_inner cmp x left) = Suc (length left)"
  by (induction left) auto

lemma insertion_inner_sorted:
  assumes "sorted_wrt (\<lambda>a b. key b \<le> key a) left"
    and "\<forall>y \<in> set left. (cmp x y < 0) = (key x < (key y :: int))"
  shows "sorted_wrt (\<lambda>a b. key b \<le> key a) (insertion_inner cmp x left)"
  using assms
proof (induction left)
  case Nil
  then show ?case by simp
next
  case (Cons y left)
  show ?case
  proof (cases "key x < key y")
    case True
    with Cons show ?thesis by (auto simp: insertion_inner_set)
  next
    case False
    with Cons.prems show ?thesis by fastforce
  qed
qed

lemma insertion_inner_filter:
  assumes "\<forall>y \<in> set left. (cmp x y < 0) = (key x < (key y :: int))"
  shows "filter (\<lambda>s. key s = k) (insertion_inner cmp x left)
       = filter (\<lambda>s. key s = k) [x] @ filter (\<lambda>s. key s = k) left"
  using assms by (induction left) auto

lemma fold_insertion_inner:
  assumes "\<forall>x \<in> set xs \<union> set acc. \<forall>y \<in> set xs \<union> set acc. (cmp x y < 0) = (key x < (key y :: int))"
    and "sorted_wrt (\<lambda>a b. key b \<le> key a) acc"
  shows "sorted_wrt (\<lambda>a b. key b \<le> key a) (fold (insertion_inner cmp) xs acc)
       \<and> (\<forall>k. filter (\<lambda>s. key s = k) (fold (insertion_inner cmp) xs acc)
              = rev (filter (\<lambda>s. key s = k) xs) @ filter (\<lambda>s. key s = k) acc)
       \<and> set (fold (insertion_inner cmp) xs acc) = set xs \<union> set acc
       \<and> length (fold (insertion_inner cmp) xs acc) = length xs + length acc"
  using assms
proof (induction xs arbitrary: acc)
  case Nil
  then show ?case by simp
next
  case (Cons x xs)
  have cmp_acc: "\<forall>y \<in> set acc. (cmp x y < 0) = (key x < key y)"
    using Cons.prems(1) by simp
  have s1: "sorted_wrt (\<lambda>a b. key b \<le> key a) (insertion_inner cmp x acc)"
    using Cons.prems(2) cmp_acc by (rule insertion_inner_sorted)
  have c1: "\<forall>a \<in> set xs \<union> set (insertion_inner cmp x acc).
      \<forall>b \<in> set xs \<union> set (insertion_inner cmp x acc). (cmp a b < 0) = (key a < key b)"
    using Cons.prems(1) by (simp add: insertion_inner_set)
  have fl: "filter (\<lambda>s. key s = k) (insertion_inner cmp x acc)
      = filter (\<lambda>s. key s = k) [x] @ filter (\<lambda>s. key s = k) acc" for k
    using cmp_acc by (rule insertion_inner_filter)
  from Cons.IH [OF c1 s1] fl
  show ?case
    by (simp add: insertion_inner_set insertion_inner_length)
qed

lemma insertionSortCmpFunc_sorted_stable:
  assumes "\<forall>x \<in> set xs. \<forall>y \<in> set xs. (cmp x y < 0) = (key x < (key y :: int))"
  shows "sorted (map key (insertionSortCmpFunc cmp xs))"
    and "filter (\<lambda>s. key s = k) (insertionSortCmpFunc cmp xs) = filter (\<lambda>s. key s = k) xs"
    and "set (insertionSortCmpFunc cmp xs) = set xs"
    and "length (insertionSortCmpFunc cmp xs) = length xs"
proof -
  have c: "\<forall>x \<in> set xs \<union> set []. \<forall>y \<in> set xs \<union> set []. (cmp x y < 0) = (key x < key y)"
    using assms by simp
  have f: "sorted_wrt (\<lambda>a b. key b \<le> key a) (fold (insertion_inner cmp) xs [])"
    "\<And>k. filter (\<lambda>s. key s = k) (fold (insertion_inner cmp) xs [])
        = rev (filter (\<lambda>s. key s = k) xs)"
    "set (fold (insertion_inner cmp) xs []) = set xs"
    "length (fold (insertion_inner cmp) xs []) = length xs"
    using fold_insertion_inner [where key = key and cmp = cmp and xs = xs and acc = "[]"] c
    by simp_all
  show "sorted (map key (insertionSortCmpFunc cmp xs))"
    using f by (simp add: insertionSortCmpFunc_def sorted_map sorted_wrt_rev)
  show "filter (\<lambda>s. key s = k) (insertionSortCmpFunc cmp xs) = filter (\<lambda>s. key s = k) xs"
    using f by (simp add: insertionSortCmpFunc_def rev_filter [symmetric])
  show "set (insertionSortCmpFunc cmp xs) = set xs"
    using f by (simp add: insertionSortCmpFunc_def)
  show "length (insertionSortCmpFunc cmp xs) = length xs"
    using f by (simp add: insertionSortCmpFunc_def)
qed

text \<open>
  For at most 12 subscriptions on an event, with priorities in the band: after the
  \<^verbatim>\<open>Subscribe\<close> calls the event's list is in ascending priority, and subscriptions
  of the same priority are in the order they were subscribed in. A dispatch considers
  the handlers in the order of that list.
\<close>

lemma Subscribe_all_sorted_stable_from:
  assumes "subscriptions_of d event = L"
    and "sorted (map (\<lambda>s. sint (Priority s)) L)"
    and "\<forall>s \<in> set L \<union> set subs. in_band s"
    and "length L + length subs \<le> 12"
  shows "\<exists>d'. Subscribe_all d event subs = Some d'
          \<and> sorted (map (\<lambda>s. sint (Priority s)) (subscriptions_of d' event))
          \<and> (\<forall>k. filter (\<lambda>s. sint (Priority s) = k) (subscriptions_of d' event)
                 = filter (\<lambda>s. sint (Priority s) = k) (L @ subs))"
  using assms
proof (induction subs arbitrary: d L)
  case Nil
  then show ?case by simp
next
  case (Cons s subs)
  define L1 where "L1 = insertionSortCmpFunc cmp_priority (L @ [s])"
  define d1 where "d1 = d\<lparr>subscriptions := (subscriptions d)(event \<mapsto> L1)\<rparr>"
  have band: "in_band x" if "x \<in> set (L @ [s])" for x
    using Cons.prems(3) that by auto
  have c: "\<forall>x \<in> set (L @ [s]). \<forall>y \<in> set (L @ [s]).
      (cmp_priority x y < 0) = (sint (Priority x) < sint (Priority y))"
    using band cmp_priority_in_band by blast
  note iss = insertionSortCmpFunc_sorted_stable
    [where cmp = cmp_priority and key = "\<lambda>s. sint (Priority s)", OF c, folded L1_def]
  have sub: "Subscribe d event s = Some d1"
    using Cons.prems(1,4) by (simp add: Subscribe_def SortFunc_def d1_def L1_def)
  have l1: "subscriptions_of d1 event = L1"
    by (simp add: d1_def subscriptions_of_def)
  have band1: "\<forall>s \<in> set L1 \<union> set subs. in_band s"
    using Cons.prems(3) by (auto simp: iss(3))
  have len1: "length L1 + length subs \<le> 12"
    using Cons.prems(4) by (simp add: iss(4))
  from Cons.IH [OF l1 iss(1) band1 len1]
  obtain d' where d': "Subscribe_all d1 event subs = Some d'"
    "sorted (map (\<lambda>s. sint (Priority s)) (subscriptions_of d' event))"
    "\<forall>k. filter (\<lambda>s. sint (Priority s) = k) (subscriptions_of d' event)
         = filter (\<lambda>s. sint (Priority s) = k) (L1 @ subs)"
    by blast
  have "filter (\<lambda>s. sint (Priority s) = k) (subscriptions_of d' event)
      = filter (\<lambda>s. sint (Priority s) = k) (L @ s # subs)" for k
    using d'(3) iss(2) [of k] by simp
  with d'(1,2) sub show ?case by simp
qed

lemma Subscribe_all_sorted_stable:
  assumes "\<forall>s \<in> set subs. in_band s" and "length subs \<le> 12"
  shows "\<exists>d. Subscribe_all NewDispatcher event subs = Some d
          \<and> sorted (map (\<lambda>s. sint (Priority s)) (subscriptions_of d event))
          \<and> (\<forall>p. filter (\<lambda>s. Priority s = p) (subscriptions_of d event)
                 = filter (\<lambda>s. Priority s = p) subs)"
proof -
  have "subscriptions_of NewDispatcher event = []"
    by (simp add: subscriptions_of_def NewDispatcher_def)
  from Subscribe_all_sorted_stable_from [OF this, of subs] assms
  obtain d where d: "Subscribe_all NewDispatcher event subs = Some d"
    "sorted (map (\<lambda>s. sint (Priority s)) (subscriptions_of d event))"
    "\<forall>k. filter (\<lambda>s. sint (Priority s) = k) (subscriptions_of d event)
         = filter (\<lambda>s. sint (Priority s) = k) subs"
    by auto
  have eq: "(\<lambda>s :: 'a Subscription. Priority s = p) = (\<lambda>s. sint (Priority s) = sint p)" for p
    by (auto intro: signed_word_eqI)
  show ?thesis
    using d by (auto simp: eq)
qed


section \<open>The dependency order\<close>

subsection \<open>The graph that the first phase builds\<close>















subsection \<open>The inner loop of the second phase\<close>




subsection \<open>The invariant of the second phase\<close>












subsection \<open>The second phase as a whole\<close>



subsection \<open>The first queue\<close>


subsection \<open>The map of the manifests\<close>

lemma manifestMap_of_snoc:
  "manifestMap_of (ms @ [A]) = (manifestMap_of ms)(ID A \<mapsto> A)"
  by (simp add: manifestMap_of_def)

lemma manifestMap_of_map_of:
  "manifestMap_of ms = map_of (rev (map (\<lambda>A. (ID A, A)) ms))"
  by (induction ms rule: rev_induct) (simp_all add: manifestMap_of_snoc, simp add: manifestMap_of_def)

lemma manifestMap_of_Some:
  "manifestMap_of ms a = Some A \<Longrightarrow> A \<in> set ms \<and> ID A = a"
  unfolding manifestMap_of_map_of by (auto dest!: map_of_SomeD)





subsection \<open>The order that sortByDependencies returns\<close>










lemmas sort_defs = sortByDependencies_def manifestMap_of_def add_edge_def degree_of_def
  dependents_of_def a_one_def a_two_def a_three_def plain_manifest_def


lemma sortByDependencies_S1_any_order:
  "sortByDependencies [a_three, a_two, a_one] = Inr [Some a_two, Some a_one, Some a_three]"
  by (simp add: sort_defs Let_def)

subsection \<open>When the resolver reports a cycle\<close>










section \<open>The loader's resolver on the scenario\<close>

text \<open>
  \<^verbatim>\<open>Loader.ResolveDependencies\<close> is a second resolver, depth first. On scenario S1
  it returns the same order as \<^verbatim>\<open>sortByDependencies\<close>. Manifests that no edge
  relates come out in the order they were given in, not in the order of their ids:
  here the two resolvers differ.
\<close>

lemmas resolve_defs = ResolveDependencies_def discovered_def a_one_def a_two_def a_three_def
  plain_manifest_def

lemma ResolveDependencies_S1:
  "ResolveDependencies 3 [discovered a_one, discovered a_two, discovered a_three]
     = Some (Inr [discovered a_two, discovered a_one, discovered a_three])"
  by (simp add: resolve_defs numeral_3_eq_3)

lemma ResolveDependencies_keeps_input_order:
  "ResolveDependencies 3 [discovered a_three, discovered a_two, discovered a_one]
     = Some (Inr [discovered a_two, discovered a_one, discovered a_three])
   \<and> ResolveDependencies 3 [discovered a_two, discovered a_three]
     = Some (Inr [discovered a_two, discovered a_three])
   \<and> sortByDependencies [a_two, a_three] = Inr [Some a_three, Some a_two]"
  by (simp add: resolve_defs sort_defs Let_def numeral_3_eq_3)

end
